(* ===== verification/Prelude.thy ===== *)
theory Prelude
  imports Main "HOL-Library.AList"
begin

text \<open>
  Shared vocabulary of the hyper-sam development: the error values every component
  returns instead of throwing, the names of actions, the characters the generated
  JavaScript text is built from, and generic lemmas on lists and association lists
  that the component theories use through the collections declared here.
\<close>

section \<open>Collections of rules\<close>

named_theorems js_simps "evaluation rules of the JavaScript value model"
named_theorems loop_simps "unfolding rules of the core loop machine"

section \<open>Errors\<close>

text \<open>
  Every exception of the modelled code is a value of \<open>err\<close>:
  \<^item> \<open>TypeError msg\<close>: what the JavaScript engine throws on a property read of
    \<open>undefined\<close>/\<open>null\<close>, a property write to a primitive in strict (module) code, or
    a call of something that is not a function;
  \<^item> \<open>UnknownAction n\<close>: an action name that is not a key of the actions object
    (a configuration error in the spec's taxonomy);
  \<^item> \<open>Thrown msg\<close>: an exception raised by user code (Accept, an action, Next-Action);
  \<^item> \<open>SyntaxError msg\<close>: \<open>JSON.parse\<close> rejecting its input (a restoration error);
  \<^item> \<open>OutsideModel msg\<close>: input the model does not cover (a JSON number with a
    fraction, a character beyond one byte, nesting deeper than the fuel); never an
    outcome of the program on the values the model prints.
\<close>

datatype err =
    TypeError string
  | UnknownAction string
  | Thrown string
  | SyntaxError string
  | OutsideModel string

type_synonym name = string

section \<open>Characters of generated JavaScript text\<close>

abbreviation nl :: char where "nl \<equiv> CHR 0x0A"
abbreviation sq :: char where "sq \<equiv> CHR 0x27"
abbreviation dq :: char where "dq \<equiv> CHR 0x22"
abbreviation bsl :: char where "bsl \<equiv> CHR 0x5C"

section \<open>Generic lemmas\<close>

lemma count_list_snoc [simp]:
  "count_list (xs @ [y]) x = count_list xs x + (if y = x then 1 else 0)"
  by (induction xs) auto

lemmas alist_update_facts [js_simps] = update_conv' dom_update distinct_update

lemma AList_update_same_key [js_simps]:
  "map_of al k = Some v \<Longrightarrow> distinct (map fst al) \<Longrightarrow> AList.update k v al = al"
proof (induction al)
  case Nil
  then show ?case by simp
next
  case (Cons a al)
  then show ?case by (cases a) (auto dest: map_of_SomeD)
qed

lemma AList_update_new: "k \<notin> fst ` set acc \<Longrightarrow> AList.update k v acc = acc @ [(k, v)]"
  by (induction acc) auto

lemma foldl_snoc_fst:
  "foldl (\<lambda>s p. fst (f s p)) s (xs @ [x]) = fst (f (foldl (\<lambda>s p. fst (f s p)) s xs) x)"
  by simp

end
