(* ===== verification/JsValue.thy ===== *)
theory JsValue
  imports Prelude
begin

text \<open>
  The JavaScript values the modelled code reads and writes: the application state,
  proposals, action arguments and the arguments that \<open>ssrDispatch\<close> serialises.
  Objects are association lists in property order; a property write keeps the position
  of an existing key and appends a new one, as an ordinary JavaScript object does for
  non-index keys (keys that look like array indices, which JavaScript orders first, are
  not distinguished). Numbers are integers. Property reads and writes follow the
  engine's rules in strict (module) code, where the source runs: reading a property of
  \<open>undefined\<close> or \<open>null\<close> and writing one to a primitive raise a \<open>TypeError\<close>.
\<close>

datatype jsval =
    JUndef
  | JNull
  | JBool bool
  | JNum int
  | JStr string
  | JArr "jsval list"
  | JObj "(string \<times> jsval) list"

text \<open>\<open>typeof v\<close>.\<close>

fun js_typeof :: "jsval \<Rightarrow> string" where
  "js_typeof JUndef = ''undefined''"
| "js_typeof JNull = ''object''"
| "js_typeof (JBool b) = ''boolean''"
| "js_typeof (JNum i) = ''number''"
| "js_typeof (JStr s) = ''string''"
| "js_typeof (JArr vs) = ''object''"
| "js_typeof (JObj kvs) = ''object''"

text \<open>Truthiness, as in \<open>if (state.foo)\<close>.\<close>

fun js_truthy :: "jsval \<Rightarrow> bool" where
  "js_truthy JUndef = False"
| "js_truthy JNull = False"
| "js_truthy (JBool b) = b"
| "js_truthy (JNum i) = (i \<noteq> 0)"
| "js_truthy (JStr s) = (s \<noteq> [])"
| "js_truthy (JArr vs) = True"
| "js_truthy (JObj kvs) = True"

text \<open>The value of a key of an object, \<open>undefined\<close> when it is missing.\<close>

definition js_prop :: "(string \<times> jsval) list \<Rightarrow> string \<Rightarrow> jsval" where
  "js_prop kvs k = (case map_of kvs k of None \<Rightarrow> JUndef | Some v \<Rightarrow> v)"

text \<open>
  The property read \<open>v.k\<close> (also what destructuring \<open>{k}\<close> does): a missing key
  reads \<open>undefined\<close>; named (non-index) properties of primitives and arrays are
  \<open>undefined\<close> here.
\<close>

fun js_get :: "jsval \<Rightarrow> string \<Rightarrow> err + jsval" where
  "js_get JUndef k = Inl (TypeError (''Cannot read properties of undefined (reading '' @ k @ '')''))"
| "js_get JNull k = Inl (TypeError (''Cannot read properties of null (reading '' @ k @ '')''))"
| "js_get (JObj kvs) k = Inr (js_prop kvs k)"
| "js_get v k = Inr JUndef"

text \<open>
  The property write \<open>v.k = x\<close> in strict code. Only objects take new properties;
  a named property on an array is outside the model and is reported as a \<open>TypeError\<close>.
\<close>

fun js_set :: "jsval \<Rightarrow> string \<Rightarrow> jsval \<Rightarrow> err + jsval" where
  "js_set (JObj kvs) k x = Inr (JObj (AList.update k x kvs))"
| "js_set v k x = Inl (TypeError (''Cannot create property '' @ k))"

section \<open>Lemmas\<close>

lemma js_prop_update [js_simps]:
  "js_prop (AList.update k x kvs) k' = (if k' = k then x else js_prop kvs k')"
  by (simp add: js_prop_def update_conv')

lemma js_set_Inr [js_simps]:
  "js_set v k x = Inr v' \<longleftrightarrow> (\<exists>kvs. v = JObj kvs \<and> v' = JObj (AList.update k x kvs))"
  by (cases v) auto

end
