(* ===== verification/Json.thy ===== *)
theory Json
  imports JsValue
begin

text \<open>
  \<open>JSON.stringify\<close> on the JavaScript value model, as \<open>ssrDispatch\<close> applies it to its
  argument list (src/src/control/server.mjs, line 14) and as the server embeds the state:
  no whitespace; strings quoted with the short escapes and \<open>\u00XX\<close> for the other
  control characters; \<open>undefined\<close> inside an array becomes \<open>null\<close> and an object
  property whose value is \<open>undefined\<close> is left out; \<open>undefined\<close> alone has no JSON text.
\<close>

section \<open>Definitions\<close>

definition hex_digit :: "nat \<Rightarrow> char" where
  "hex_digit n = (if n < 10 then char_of (48 + n) else char_of (87 + n))"

definition json_escape :: "char \<Rightarrow> string" where
  "json_escape c =
     (if c = dq then [bsl, dq]
      else if c = bsl then [bsl, bsl]
      else if c = CHR 0x08 then [bsl, CHR ''b'']
      else if c = CHR 0x0C then [bsl, CHR ''f'']
      else if c = nl then [bsl, CHR ''n'']
      else if c = CHR 0x0D then [bsl, CHR ''r'']
      else if c = CHR 0x09 then [bsl, CHR ''t'']
      else if of_char c < (32::nat) then
        [bsl, CHR ''u'', CHR ''0'', CHR ''0'', hex_digit (of_char c div 16), hex_digit (of_char c mod 16)]
      else [c])"

definition json_quote :: "string \<Rightarrow> string" where
  "json_quote s = dq # concat (map json_escape s) @ [dq]"

fun dec_digits :: "nat \<Rightarrow> string" where
  "dec_digits n = (if n < 10 then [char_of (48 + n)] else dec_digits (n div 10) @ [char_of (48 + n mod 10)])"

definition json_int :: "int \<Rightarrow> string" where
  "json_int i = (if i < 0 then CHR ''-'' # dec_digits (nat (- i)) else dec_digits (nat i))"

fun join_commas :: "string list \<Rightarrow> string" where
  "join_commas [] = []"
| "join_commas [x] = x"
| "join_commas (x # xs) = x @ '','' @ join_commas xs"

fun json_str :: "jsval \<Rightarrow> string"
  and json_items :: "jsval list \<Rightarrow> string list"
  and json_members :: "(string \<times> jsval) list \<Rightarrow> string list" where
  "json_str JUndef = ''null''"
| "json_str JNull = ''null''"
| "json_str (JBool b) = (if b then ''true'' else ''false'')"
| "json_str (JNum i) = json_int i"
| "json_str (JStr s) = json_quote s"
| "json_str (JArr vs) = ''['' @ join_commas (json_items vs) @ '']''"
| "json_str (JObj kvs) = ''{'' @ join_commas (json_members kvs) @ ''}''"
| "json_items [] = []"
| "json_items (v # vs) = json_str v # json_items vs"
| "json_members [] = []"
| "json_members (kv # kvs) =
     (if snd kv = JUndef then json_members kvs
      else (json_quote (fst kv) @ '':'' @ json_str (snd kv)) # json_members kvs)"

definition JSON_stringify :: "jsval \<Rightarrow> string option" where
  "JSON_stringify v = (if v = JUndef then None else Some (json_str v))"

text \<open>Text made of printable characters only (no control character, so no line break).\<close>

definition printable :: "string \<Rightarrow> bool" where
  "printable s \<longleftrightarrow> (\<forall>c \<in> set s. (32::nat) \<le> of_char c)"

section \<open>Lemmas\<close>

declare dec_digits.simps [simp del]

lemma printable_append [simp]: "printable (xs @ ys) \<longleftrightarrow> printable xs \<and> printable ys"
  by (auto simp: printable_def)

lemma printable_Cons [simp]: "printable (c # s) \<longleftrightarrow> (32::nat) \<le> of_char c \<and> printable s"
  by (simp add: printable_def)

lemma printable_Nil [simp]: "printable []"
  by (simp add: printable_def)

lemma printable_hex_digit: "n < 16 \<Longrightarrow> (32::nat) \<le> of_char (hex_digit n)"
  by (simp add: hex_digit_def)

lemma printable_json_escape: "printable (json_escape c)"
  by (simp add: json_escape_def printable_hex_digit)

lemma printable_json_quote: "printable (json_quote s)"
  by (induction s) (simp_all add: json_quote_def printable_json_escape)

lemma printable_dec_digits: "printable (dec_digits n)"
  by (induction n rule: dec_digits.induct) (subst dec_digits.simps, simp)

lemma printable_json_int: "printable (json_int i)"
  by (simp add: json_int_def printable_dec_digits)

lemma printable_join_commas: "\<forall>x \<in> set xs. printable x \<Longrightarrow> printable (join_commas xs)"
  by (induction xs rule: join_commas.induct) auto

lemma printable_json:
  "printable (json_str v)" and "\<forall>x \<in> set (json_items vs). printable x"
  and "\<forall>x \<in> set (json_members kvs). printable x"
  by (induction v and vs and kvs rule: json_str_json_items_json_members.induct)
     (auto simp: printable_json_int printable_json_quote printable_join_commas)

end
