(* ===== verification/JsonParse.thy ===== *)
theory JsonParse
  imports Json
begin

text \<open>
  \<open>JSON.parse\<close> on the texts the model's values print to, as the client runtime uses it
  to restore the state the server embedded (spec 4.3) and as a reader of the arguments
  that \<open>ssrDispatch\<close> writes. The parser follows the JSON grammar of ECMA-404 with the
  engine's error classes: malformed text is a \<open>SyntaxError\<close>; what the value model has no
  room for (a fraction or an exponent, a \<open>\\u\<close> escape beyond one byte, nesting deeper
  than the fuel) is \<open>OutsideModel\<close>. Duplicate keys keep the position of the first and
  the value of the last, as in JavaScript. The fuel is one more than the length of the
  text, which bounds the nesting depth.

  The main result is the round trip \<open>JSON_parse (json_str v) = Inr v\<close> for values without
  \<open>undefined\<close> and without duplicate keys (\<open>json_clean\<close>); it is proved by induction on the
  value through the lemmas that each printed element is parsed back with the rest of the
  text left over.
\<close>

section \<open>The parser\<close>


definition is_ws :: "char \<Rightarrow> bool" where
  "is_ws c \<longleftrightarrow> c = CHR '' '' \<or> c = CHR 0x09 \<or> c = nl \<or> c = CHR 0x0D"

definition skip_ws :: "string \<Rightarrow> string" where
  "skip_ws s = dropWhile is_ws s"

definition is_digit :: "char \<Rightarrow> bool" where
  "is_digit c \<longleftrightarrow> (48::nat) \<le> of_char c \<and> of_char c \<le> (57::nat)"

fun digits_value :: "nat \<Rightarrow> string \<Rightarrow> nat" where
  "digits_value acc [] = acc"
| "digits_value acc (d # ds) = digits_value (10 * acc + (of_char d - 48)) ds"

text \<open>An integer's digits: no leading zero; a fraction or an exponent is outside the model.\<close>

definition parse_nat :: "string \<Rightarrow> err + (nat \<times> string)" where
  "parse_nat s =
     (let ds = takeWhile is_digit s; r = dropWhile is_digit s in
      if ds = [] then Inl (SyntaxError ''No number after minus sign in JSON'')
      else if hd ds = CHR ''0'' \<and> 1 < length ds then Inl (SyntaxError ''Unexpected number in JSON'')
      else if r \<noteq> [] \<and> (hd r = CHR ''.'' \<or> hd r = CHR ''e'' \<or> hd r = CHR ''E'')
        then Inl (OutsideModel ''non-integer number'')
      else Inr (digits_value 0 ds, r))"

definition hex_value :: "char \<Rightarrow> nat option" where
  "hex_value c =
     (let k = of_char c :: nat in
      if 48 \<le> k \<and> k \<le> 57 then Some (k - 48)
      else if 97 \<le> k \<and> k \<le> 102 then Some (k - 87)
      else if 65 \<le> k \<and> k \<le> 70 then Some (k - 55)
      else None)"

fun hex4 :: "string \<Rightarrow> nat option" where
  "hex4 [a, b, c, d] =
     (case (hex_value a, hex_value b, hex_value c, hex_value d) of
        (Some w, Some x, Some y, Some z) \<Rightarrow> Some (((w * 16 + x) * 16 + y) * 16 + z)
      | _ \<Rightarrow> None)"
| "hex4 _ = None"

definition json_unescape :: "char \<Rightarrow> char option" where
  "json_unescape d =
     (if d = dq then Some dq else if d = bsl then Some bsl else if d = CHR ''/'' then Some (CHR ''/'')
      else if d = CHR ''b'' then Some (CHR 0x08) else if d = CHR ''f'' then Some (CHR 0x0C)
      else if d = CHR ''n'' then Some nl else if d = CHR ''r'' then Some (CHR 0x0D)
      else if d = CHR ''t'' then Some (CHR 0x09) else None)"

definition add_char :: "char \<Rightarrow> err + (string \<times> string) \<Rightarrow> err + (string \<times> string)" where
  "add_char c r = (case r of Inl e \<Rightarrow> Inl e | Inr (v, s) \<Rightarrow> Inr (c # v, s))"

text \<open>The characters of a string after its opening quote, up to and without the closing one.\<close>

function parse_chars :: "string \<Rightarrow> err + (string \<times> string)" where
  "parse_chars [] = Inl (SyntaxError ''Unterminated string in JSON'')"
| "parse_chars (c # s) =
     (if c = dq then Inr ([], s)
      else if c = bsl then
        (case s of
           [] \<Rightarrow> Inl (SyntaxError ''Bad escaped character in JSON'')
         | d # s' \<Rightarrow>
             (if d = CHR ''u'' then
                (case hex4 (take 4 s') of
                   None \<Rightarrow> Inl (SyntaxError ''Bad Unicode escape in JSON'')
                 | Some k \<Rightarrow>
                     (if k < 256 then add_char (char_of k) (parse_chars (drop 4 s'))
                      else Inl (OutsideModel ''character beyond one byte'')))
              else
                (case json_unescape d of
                   None \<Rightarrow> Inl (SyntaxError ''Bad escaped character in JSON'')
                 | Some e \<Rightarrow> add_char e (parse_chars s'))))
      else if of_char c < (32::nat) then Inl (SyntaxError ''Bad control character in string literal in JSON'')
      else add_char c (parse_chars s))"
  by pat_completeness auto
termination
  by (relation "measure length") auto

function parse_value :: "nat \<Rightarrow> string \<Rightarrow> err + (jsval \<times> string)"
  and parse_array :: "nat \<Rightarrow> string \<Rightarrow> err + (jsval \<times> string)"
  and parse_array_rest :: "nat \<Rightarrow> jsval list \<Rightarrow> string \<Rightarrow> err + (jsval \<times> string)"
  and parse_object :: "nat \<Rightarrow> string \<Rightarrow> err + (jsval \<times> string)"
  and parse_member :: "nat \<Rightarrow> (string \<times> jsval) list \<Rightarrow> string \<Rightarrow> err + (jsval \<times> string)"
  and parse_object_rest :: "nat \<Rightarrow> (string \<times> jsval) list \<Rightarrow> string \<Rightarrow> err + (jsval \<times> string)" where
  "parse_value 0 s = Inl (OutsideModel ''nesting'')"
| "parse_value (Suc n) s =
     (case skip_ws s of
        [] \<Rightarrow> Inl (SyntaxError ''Unexpected end of JSON input'')
      | c # r \<Rightarrow>
          (if c = CHR ''['' then parse_array n r
           else if c = CHR ''{'' then parse_object n r
           else if c = dq then (case parse_chars r of Inl e \<Rightarrow> Inl e | Inr (str, r') \<Rightarrow> Inr (JStr str, r'))
           else if c = CHR ''t'' \<and> take 3 r = ''rue'' then Inr (JBool True, drop 3 r)
           else if c = CHR ''f'' \<and> take 4 r = ''alse'' then Inr (JBool False, drop 4 r)
           else if c = CHR ''n'' \<and> take 3 r = ''ull'' then Inr (JNull, drop 3 r)
           else if c = CHR ''-'' then
             (case parse_nat r of Inl e \<Rightarrow> Inl e | Inr (k, r') \<Rightarrow> Inr (JNum (- int k), r'))
           else if is_digit c then
             (case parse_nat (c # r) of Inl e \<Rightarrow> Inl e | Inr (k, r') \<Rightarrow> Inr (JNum (int k), r'))
           else Inl (SyntaxError ''Unexpected token in JSON'')))"
| "parse_array 0 s = Inl (OutsideModel ''nesting'')"
| "parse_array (Suc n) s =
     (case skip_ws s of
        c # r \<Rightarrow> (if c = CHR '']'' then Inr (JArr [], r)
                  else (case parse_value n s of Inl e \<Rightarrow> Inl e | Inr (v, r') \<Rightarrow> parse_array_rest n [v] r'))
      | [] \<Rightarrow> Inl (SyntaxError ''Unexpected end of JSON input''))"
| "parse_array_rest 0 acc s = Inl (OutsideModel ''nesting'')"
| "parse_array_rest (Suc n) acc s =
     (case skip_ws s of
        c # r \<Rightarrow>
          (if c = CHR '','' then
             (case parse_value n r of Inl e \<Rightarrow> Inl e | Inr (v, r') \<Rightarrow> parse_array_rest n (acc @ [v]) r')
           else if c = CHR '']'' then Inr (JArr acc, r)
           else Inl (SyntaxError ''Unexpected token in JSON''))
      | [] \<Rightarrow> Inl (SyntaxError ''Unexpected end of JSON input''))"
| "parse_object 0 s = Inl (OutsideModel ''nesting'')"
| "parse_object (Suc n) s =
     (case skip_ws s of
        c # r \<Rightarrow> (if c = CHR ''}'' then Inr (JObj [], r)
                  else if c = dq then parse_member n [] r
                  else Inl (SyntaxError ''Unexpected token in JSON''))
      | [] \<Rightarrow> Inl (SyntaxError ''Unexpected end of JSON input''))"
| "parse_member 0 acc s = Inl (OutsideModel ''nesting'')"
| "parse_member (Suc n) acc s =
     (case parse_chars s of
        Inl e \<Rightarrow> Inl e
      | Inr (k, r) \<Rightarrow>
          (case skip_ws r of
             c # r' \<Rightarrow>
               (if c = CHR '':'' then
                  (case parse_value n r' of
                     Inl e \<Rightarrow> Inl e
                   | Inr (v, r'') \<Rightarrow> parse_object_rest n (AList.update k v acc) r'')
                else Inl (SyntaxError ''Unexpected token in JSON''))
           | [] \<Rightarrow> Inl (SyntaxError ''Unexpected end of JSON input'')))"
| "parse_object_rest 0 acc s = Inl (OutsideModel ''nesting'')"
| "parse_object_rest (Suc n) acc s =
     (case skip_ws s of
        c # r \<Rightarrow>
          (if c = CHR '','' then
             (case skip_ws r of
                d # r' \<Rightarrow> (if d = dq then parse_member n acc r' else Inl (SyntaxError ''Unexpected token in JSON''))
              | [] \<Rightarrow> Inl (SyntaxError ''Unexpected end of JSON input''))
           else if c = CHR ''}'' then Inr (JObj acc, r)
           else Inl (SyntaxError ''Unexpected token in JSON''))
      | [] \<Rightarrow> Inl (SyntaxError ''Unexpected end of JSON input''))"

  by pat_completeness auto
termination
  by size_change

definition JSON_parse :: "string \<Rightarrow> err + jsval" where
  "JSON_parse s =
     (case parse_value (Suc (length s)) s of
        Inl e \<Rightarrow> Inl e
      | Inr (v, r) \<Rightarrow> (if skip_ws r = [] then Inr v else Inl (SyntaxError ''Unexpected non-whitespace character after JSON'')))"

section \<open>Values that survive the round trip, and the printed tails\<close>


text \<open>
  What may follow a number's digits without extending it, the values \<open>JSON.stringify\<close>
  writes without loss, and the texts that follow the first element of a printed array
  and the first member of a printed object.
\<close>

definition num_stop :: "string \<Rightarrow> bool" where
  "num_stop r \<longleftrightarrow> r = [] \<or> (\<not> is_digit (hd r) \<and> hd r \<noteq> CHR ''.'' \<and> hd r \<noteq> CHR ''e'' \<and> hd r \<noteq> CHR ''E'')"


fun json_clean :: "jsval \<Rightarrow> bool" where
  "json_clean JUndef = False"
| "json_clean (JArr vs) = list_all json_clean vs"
| "json_clean (JObj kvs) = (distinct (map fst kvs) \<and> list_all (\<lambda>kv. json_clean (snd kv)) kvs)"
| "json_clean v = True"

definition arr_tail :: "jsval list \<Rightarrow> string" where
  "arr_tail vs = concat (map (\<lambda>v. CHR '','' # json_str v) vs) @ '']''"

definition member_text :: "string \<times> jsval \<Rightarrow> string" where
  "member_text kv = json_quote (fst kv) @ CHR '':'' # json_str (snd kv)"

definition obj_tail :: "(string \<times> jsval) list \<Rightarrow> string" where
  "obj_tail kvs = concat (map (\<lambda>kv. CHR '','' # member_text kv) kvs) @ ''}''"

section \<open>Lemmas\<close>


lemma skip_ws_Cons [simp]: "\<not> is_ws c \<Longrightarrow> skip_ws (c # s) = c # s"
  by (simp add: skip_ws_def)

lemma skip_ws_Nil [simp]: "skip_ws [] = []"
  by (simp add: skip_ws_def)

lemma add_char_Inr [simp]: "add_char c (Inr (v, s)) = Inr (c # v, s)"
  by (simp add: add_char_def)

lemma hex_digit_value: "n < 16 \<Longrightarrow> hex_value (hex_digit n) = Some n"
  by (auto simp: hex_digit_def hex_value_def Let_def)

lemma hex_value_zero [simp]: "hex_value (CHR ''0'') = Some 0"
  by (simp add: hex_value_def)

lemma hex4_escape:
  assumes "(of_char c :: nat) < 32"
  shows "hex4 [CHR ''0'', CHR ''0'', hex_digit (of_char c div 16), hex_digit (of_char c mod 16)] = Some (of_char c)"
proof -
  have "(of_char c :: nat) div 16 < 16" using assms by simp
  then show ?thesis
    by (simp add: hex_digit_value)
qed

lemma parse_chars_escape:
  "parse_chars (json_escape c @ s) = add_char c (parse_chars s)"
proof -
  consider "c = dq" | "c = bsl" | "c = CHR 0x08" | "c = CHR 0x0C" | "c = nl" | "c = CHR 0x0D"
    | "c = CHR 0x09" | "c \<noteq> dq" "c \<noteq> bsl" "c \<noteq> CHR 0x08" "c \<noteq> CHR 0x0C" "c \<noteq> nl"
      "c \<noteq> CHR 0x0D" "c \<noteq> CHR 0x09" "(of_char c :: nat) < 32"
    | "c \<noteq> dq" "c \<noteq> bsl" "c \<noteq> CHR 0x08" "c \<noteq> CHR 0x0C" "c \<noteq> nl"
      "c \<noteq> CHR 0x0D" "c \<noteq> CHR 0x09" "\<not> (of_char c :: nat) < 32"
    by blast
  then show ?thesis
  proof cases
    case 8
    then show ?thesis
      by (simp add: json_escape_def hex4_escape json_unescape_def del: hex4.simps)
  next
    case 9
    then show ?thesis by (simp add: json_escape_def)
  qed (simp_all add: json_escape_def json_unescape_def)
qed

lemma parse_chars_quote: "parse_chars (concat (map json_escape s) @ dq # r) = Inr (s, r)"
  by (induction s) (simp_all add: parse_chars_escape)
lemma is_digit_char: "(n::nat) < 10 \<Longrightarrow> is_digit (char_of (48 + n))"
  by (simp add: is_digit_def)

lemma dec_digits_digits: "c \<in> set (dec_digits k) \<Longrightarrow> is_digit c"
proof (induction k rule: dec_digits.induct)
  case (1 k)
  then show ?case
    by (subst (asm) dec_digits.simps) (auto simp: is_digit_char split: if_splits)
qed

lemma dec_digits_not_Nil [simp]: "dec_digits k \<noteq> []"
  by (subst dec_digits.simps) simp

lemma digits_value_snoc:
  "digits_value acc (xs @ [d]) = 10 * digits_value acc xs + (of_char d - 48)"
  by (induction xs arbitrary: acc) simp_all

lemma digits_value_dec: "digits_value 0 (dec_digits k) = k"
proof (induction k rule: dec_digits.induct)
  case (1 k)
  show ?case
  proof (cases "k < 10")
    case True
    then show ?thesis by (subst dec_digits.simps) simp
  next
    case False
    with "1.IH" have "digits_value 0 (dec_digits (k div 10)) = k div 10" by simp
    with False show ?thesis
      by (subst dec_digits.simps) (simp add: digits_value_snoc)
  qed
qed

lemma dec_digits_lead: "hd (dec_digits k) = CHR ''0'' \<Longrightarrow> k = 0"
proof (induction k rule: dec_digits.induct)
  case (1 k)
  show ?case
  proof (cases "k < 10")
    case True
    with "1.prems" have "char_of (48 + k) = CHR ''0''" by (subst (asm) dec_digits.simps) simp
    then have "of_char (char_of (48 + k)) = (of_char (CHR ''0'') :: nat)" by simp
    with True show ?thesis by simp
  next
    case False
    with "1.prems" have "hd (dec_digits (k div 10)) = CHR ''0''"
      by (subst (asm) dec_digits.simps) simp
    with False "1.IH" have "k div 10 = 0" by simp
    with False show ?thesis by simp
  qed
qed

lemma dec_digits_zero: "dec_digits 0 = ''0''"
  by code_simp

lemma parse_nat_dec:
  assumes "num_stop r"
  shows "parse_nat (dec_digits k @ r) = Inr (k, r)"
proof -
  have r: "takeWhile is_digit r = [] \<and> dropWhile is_digit r = r"
    using assms by (cases r) (auto simp: num_stop_def)
  have tw: "takeWhile is_digit (dec_digits k @ r) = dec_digits k"
    using r by (simp add: takeWhile_append2 dec_digits_digits)
  have dw: "dropWhile is_digit (dec_digits k @ r) = r"
    using r by (simp add: dropWhile_append2 dec_digits_digits)
  have lead: "\<not> (hd (dec_digits k) = CHR ''0'' \<and> 1 < length (dec_digits k))"
    using dec_digits_lead dec_digits_zero by fastforce
  show ?thesis
    using assms tw dw lead by (auto simp: parse_nat_def num_stop_def digits_value_dec)
qed
lemma join_commas_Cons: "join_commas (x # xs) = x @ concat (map (\<lambda>y. CHR '','' # y) xs)"
  by (induction xs arbitrary: x) (simp_all add: join_commas.simps(3)[of _ "_ # _"])

lemma json_items_map: "json_items vs = map json_str vs"
  by (induction vs) simp_all

lemma json_members_map:
  "list_all (\<lambda>kv. snd kv \<noteq> JUndef) kvs \<Longrightarrow> json_members kvs = map member_text kvs"
  by (induction kvs) (simp_all add: member_text_def)

lemma json_clean_not_undef: "json_clean v \<Longrightarrow> v \<noteq> JUndef"
  by auto

lemma json_str_JArr_Cons: "json_str (JArr (v # vs)) = CHR ''['' # json_str v @ arr_tail vs"
  by (simp add: json_items_map join_commas_Cons arr_tail_def comp_def)

lemma json_str_JObj_Cons:
  "list_all (\<lambda>kv. snd kv \<noteq> JUndef) (kv # kvs) \<Longrightarrow>
   json_str (JObj (kv # kvs)) = CHR ''{'' # member_text kv @ obj_tail kvs"
  by (simp only: json_str.simps json_members_map) (simp add: join_commas_Cons obj_tail_def comp_def)

lemma json_str_first:
  "json_str v = c # s \<Longrightarrow> \<not> is_ws c \<and> c \<noteq> CHR '']'' \<and> c \<noteq> CHR ''}''"
proof (cases v)
  case (JNum i)
  moreover have "dec_digits k = c # s \<Longrightarrow> is_digit c" for k
    by (metis dec_digits_digits list.set_intros(1))
  ultimately show "json_str v = c # s \<Longrightarrow> ?thesis"
    by (auto simp: json_int_def is_ws_def is_digit_def split: if_splits)
qed (auto simp: json_quote_def is_ws_def split: if_splits)

lemma json_str_not_Nil [simp]: "json_str v \<noteq> []"
  by (cases v) (simp_all add: json_int_def json_quote_def)

lemma num_stop_arr_tail [simp]: "num_stop (arr_tail vs @ r)"
  by (cases vs) (simp_all add: arr_tail_def num_stop_def is_digit_def)

lemma num_stop_obj_tail [simp]: "num_stop (obj_tail kvs @ r)"
  by (cases kvs) (simp_all add: obj_tail_def num_stop_def is_digit_def)



lemma parse_array_rest_tail:
  assumes "\<And>x n r. x \<in> set vs \<Longrightarrow> json_clean x \<Longrightarrow> length (json_str x) < n \<Longrightarrow> num_stop r \<Longrightarrow>
             parse_value n (json_str x @ r) = Inr (x, r)"
    and "list_all json_clean vs" and "length (arr_tail vs) < n"
  shows "parse_array_rest n acc (arr_tail vs @ r) = Inr (JArr (acc @ vs), r)"
  using assms
proof (induction vs arbitrary: n acc)
  case Nil
  then obtain m where "n = Suc m" by (cases n) (auto simp: arr_tail_def)
  then show ?case by (simp add: arr_tail_def is_ws_def)
next
  case (Cons v vs)
  have tail: "arr_tail (v # vs) = CHR '','' # json_str v @ arr_tail vs"
    by (simp add: arr_tail_def)
  have "0 < length (arr_tail vs)" by (simp add: arr_tail_def)
  with Cons.prems(3) obtain m where n: "n = Suc m" and lv: "length (json_str v) < m"
    and lt: "length (arr_tail vs) < m"
    by (cases n) (auto simp: tail)
  have v: "parse_value m (json_str v @ arr_tail vs @ r) = Inr (v, arr_tail vs @ r)"
    using Cons.prems(1) [of v m "arr_tail vs @ r"] Cons.prems(2) lv by simp
  have rest: "parse_array_rest m (acc @ [v]) (arr_tail vs @ r) = Inr (JArr (acc @ [v] @ vs), r)"
    using Cons.IH [of m "acc @ [v]"] Cons.prems(1,2) lt by simp
  show ?case using v rest by (simp add: n tail is_ws_def)
qed

lemma parse_member_step:
  assumes "parse_value m (json_str v @ t) = Inr (v, t)"
  shows "parse_member (Suc m) acc (concat (map json_escape k) @ dq # CHR '':'' # json_str v @ t) =
           parse_object_rest m (AList.update k v acc) t"
  using assms by (simp add: parse_chars_quote is_ws_def)

lemma parse_object_rest_tail:
  assumes "\<And>x n r. x \<in> snd ` set kvs \<Longrightarrow> json_clean x \<Longrightarrow> length (json_str x) < n \<Longrightarrow> num_stop r \<Longrightarrow>
             parse_value n (json_str x @ r) = Inr (x, r)"
    and "list_all (\<lambda>kv. json_clean (snd kv)) kvs" and "distinct (map fst kvs)"
    and "fst ` set kvs \<inter> fst ` set acc = {}" and "length (obj_tail kvs) < n"
  shows "parse_object_rest n acc (obj_tail kvs @ r) = Inr (JObj (acc @ kvs), r)"
  using assms
proof (induction kvs arbitrary: n acc)
  case Nil
  then obtain m where "n = Suc m" by (cases n) (auto simp: obj_tail_def)
  then show ?case by (simp add: obj_tail_def is_ws_def)
next
  case (Cons kv kvs)
  obtain k v where kv: "kv = (k, v)" by (cases kv)
  have tail: "obj_tail ((k, v) # kvs) =
      CHR '','' # dq # concat (map json_escape k) @ dq # CHR '':'' # json_str v @ obj_tail kvs"
    by (simp add: obj_tail_def member_text_def json_quote_def kv)
  have "0 < length (obj_tail kvs)" by (simp add: obj_tail_def)
  with Cons.prems(5) obtain m where n: "n = Suc (Suc m)" and lv: "length (json_str v) < m"
    and lt: "length (obj_tail kvs) < m"
    by (auto simp: tail kv dest!: less_imp_Suc_add)
  have v: "parse_value m (json_str v @ obj_tail kvs @ r) = Inr (v, obj_tail kvs @ r)"
    using Cons.prems(1) [of v m "obj_tail kvs @ r"] Cons.prems(2) lv by (simp add: kv)
  have new: "k \<notin> fst ` set acc" using Cons.prems(4) by (auto simp: kv)
  have rest: "parse_object_rest m (acc @ [(k, v)]) (obj_tail kvs @ r) = Inr (JObj (acc @ [(k, v)] @ kvs), r)"
    using Cons.IH [where n = m and acc = "acc @ [(k, v)]"] Cons.prems(1-4) lt by (auto simp: kv)
  have "parse_object_rest (Suc (Suc m)) acc (CHR '','' # dq # concat (map json_escape k) @ dq # CHR '':'' #
          json_str v @ obj_tail kvs @ r) = parse_member (Suc m) acc (concat (map json_escape k) @ dq # CHR '':'' #
          json_str v @ obj_tail kvs @ r)"
    by (simp add: is_ws_def)
  also have "\<dots> = parse_object_rest m (AList.update k v acc) (obj_tail kvs @ r)"
    using v by (rule parse_member_step)
  finally show ?case using rest new by (simp add: n tail AList_update_new kv)
qed


lemma parse_value_json:
  "json_clean v \<Longrightarrow> length (json_str v) < n \<Longrightarrow> num_stop r \<Longrightarrow> parse_value n (json_str v @ r) = Inr (v, r)"
proof (induction v arbitrary: n r)
  case JUndef
  then show ?case by simp
next
  case JNull
  then obtain m where "n = Suc m" by (cases n) auto
  then show ?case by (simp add: is_ws_def)
next
  case (JBool b)
  then obtain m where "n = Suc m" by (cases n) auto
  then show ?case by (cases b) (simp_all add: is_ws_def)
next
  case (JNum i)
  then obtain m where n: "n = Suc m" by (cases n) auto
  show ?case
  proof (cases "i < 0")
    case True
    then show ?thesis using JNum.prems(3) by (simp add: n json_int_def is_ws_def parse_nat_dec)
  next
    case False
    obtain c s where cs: "dec_digits (nat i) = c # s" by (cases "dec_digits (nat i)") auto
    then have "is_digit c" by (metis dec_digits_digits list.set_intros(1))
    then have c: "\<not> is_ws c \<and> c \<noteq> CHR ''['' \<and> c \<noteq> CHR ''{'' \<and> c \<noteq> dq \<and> c \<noteq> CHR ''t'' \<and>
                  c \<noteq> CHR ''f'' \<and> c \<noteq> CHR ''n'' \<and> c \<noteq> CHR ''-''"
      by (auto simp: is_digit_def is_ws_def)
    have "parse_nat (c # s @ r) = Inr (nat i, r)"
      using parse_nat_dec [OF JNum.prems(3), of "nat i"] cs by simp
    with False c cs \<open>is_digit c\<close> show ?thesis by (simp add: n json_int_def)
  qed
next
  case (JStr s)
  then obtain m where "n = Suc m" by (cases n) auto
  then show ?case by (simp add: json_quote_def is_ws_def parse_chars_quote)
next
  case (JArr vs)
  show ?case
  proof (cases vs)
    case Nil
    with JArr.prems(2) obtain m where "n = Suc (Suc m)" by (auto dest!: less_imp_Suc_add)
    with Nil show ?thesis by (simp add: is_ws_def)
  next
    case (Cons v vs')
    have "0 < length (arr_tail vs')" by (simp add: arr_tail_def)
    moreover have "length (json_str (JArr vs)) = Suc (length (json_str v) + length (arr_tail vs'))"
      by (simp only: Cons json_str_JArr_Cons) simp
    ultimately obtain m where n: "n = Suc (Suc m)" and lv: "length (json_str v) < m"
      and lt: "length (arr_tail vs') < m"
      using JArr.prems(2) by (auto dest!: less_imp_Suc_add)
    have cleans: "json_clean v" "list_all json_clean vs'" using JArr.prems(1) Cons by auto
    have v: "parse_value m (json_str v @ arr_tail vs' @ r) = Inr (v, arr_tail vs' @ r)"
      using JArr.IH [of v m "arr_tail vs' @ r"] Cons cleans lv by simp
    have rest: "parse_array_rest m [v] (arr_tail vs' @ r) = Inr (JArr ([v] @ vs'), r)"
      by (rule parse_array_rest_tail) (use JArr.IH Cons cleans lt in auto)
    obtain c s where cs: "json_str v = c # s" by (cases "json_str v") auto
    then have c: "\<not> is_ws c \<and> c \<noteq> CHR '']''" using json_str_first by blast
    from v rest c cs show ?thesis by (simp add: n Cons json_str_JArr_Cons is_ws_def del: json_str.simps)
  qed
next
  case (JObj kvs)
  have IH: "\<And>x n r. x \<in> snd ` set kvs \<Longrightarrow> json_clean x \<Longrightarrow> length (json_str x) < n \<Longrightarrow> num_stop r \<Longrightarrow>
             parse_value n (json_str x @ r) = Inr (x, r)"
    using JObj.IH by force
  show ?case
  proof (cases kvs)
    case Nil
    with JObj.prems(2) obtain m where "n = Suc (Suc m)" by (auto dest!: less_imp_Suc_add)
    with Nil show ?thesis by (simp add: is_ws_def)
  next
    case (Cons kv kvs')
    obtain k v where kv: "kv = (k, v)" by (cases kv)
    have cleans: "json_clean v" "list_all (\<lambda>kv. json_clean (snd kv)) kvs'" "distinct (map fst kvs')"
      "k \<notin> fst ` set kvs'"
      using JObj.prems(1) Cons kv by auto
    have nu: "list_all (\<lambda>kv. snd kv \<noteq> JUndef) (kv # kvs')"
      using JObj.prems(1) Cons by (auto simp: list_all_iff)
    have jtxt: "json_str (JObj kvs) =
        CHR ''{'' # dq # concat (map json_escape k) @ dq # CHR '':'' # json_str v @ obj_tail kvs'"
      using json_str_JObj_Cons [OF nu] by (simp add: Cons kv member_text_def json_quote_def)
    have "0 < length (obj_tail kvs')" by (simp add: obj_tail_def)
    moreover have "Suc (Suc (Suc (length (json_str v) + length (obj_tail kvs')))) \<le> length (json_str (JObj kvs))"
      by (simp only: jtxt) simp
    ultimately have "Suc (Suc (Suc (length (json_str v) + length (obj_tail kvs')))) < n"
      using JObj.prems(2) by linarith
    then obtain m where n: "n = Suc (Suc (Suc m))" and lv: "length (json_str v) < m"
      and lt: "length (obj_tail kvs') < m"
      using \<open>0 < length (obj_tail kvs')\<close> by (intro that [of "n - 3"]) auto
    have v: "parse_value m (json_str v @ obj_tail kvs' @ r) = Inr (v, obj_tail kvs' @ r)"
      using IH [of v m "obj_tail kvs' @ r"] Cons kv cleans(1) lv by simp
    have rest: "parse_object_rest m [(k, v)] (obj_tail kvs' @ r) = Inr (JObj ([(k, v)] @ kvs'), r)"
      by (rule parse_object_rest_tail) (use IH Cons cleans lt in auto)
    have "parse_value n (json_str (JObj kvs) @ r) = parse_value (Suc (Suc (Suc m)))
        (CHR ''{'' # dq # concat (map json_escape k) @ dq # CHR '':'' # json_str v @ obj_tail kvs' @ r)"
      by (simp only: n jtxt append_Cons append_assoc)
    also have "\<dots> = parse_member (Suc m) [] (concat (map json_escape k) @ dq # CHR '':'' # json_str v @ obj_tail kvs' @ r)"
      by (simp add: is_ws_def)
    also have "\<dots> = parse_object_rest m (AList.update k v []) (obj_tail kvs' @ r)"
      using v by (rule parse_member_step)
    also have "\<dots> = Inr (JObj kvs, r)"
      using rest by (simp add: Cons kv)
    finally show ?thesis .
  qed
qed

text \<open>The round trip: \<open>JSON.parse\<close> inverts \<open>JSON.stringify\<close> on clean values.\<close>

lemma JSON_parse_stringify:
  assumes "json_clean v"
  shows "JSON_parse (json_str v) = Inr v"
proof -
  have "parse_value (Suc (length (json_str v))) (json_str v @ []) = Inr (v, [])"
    by (rule parse_value_json) (simp_all add: assms num_stop_def)
  then show ?thesis by (simp add: JSON_parse_def)
qed

end
