(* ===== verification/Core_Loop.thy ===== *)
theory Core_Loop
  imports Prelude
begin

text \<open>
  The core loop of the SAM pattern (spec section 4.1): the bound \<open>accept(proposal)\<close>
  runs the application's Accept function on the shared state and then its optional
  Next-Action hook, which may call actions, whose proposals come back to \<open>accept\<close>.
  The loop is written as a machine over a stack of pending tasks: the depth-first,
  run-to-completion schedule in which every \<open>propose\<close> and every action call is
  awaited before the next one starts. The state is threaded explicitly; Accept is
  its only writer. The Next-Action chain need not converge, so runs take fuel and
  running out of it is an outcome of its own.
\<close>

section \<open>Data\<close>

text \<open>
  \<open>'s\<close> is the application state, \<open>'p\<close> the value passed to \<open>accept\<close> (the
  \<open>{proposal}\<close> object), \<open>'c\<close> the argument an action is called with.
  An action returns the proposals it passed to \<open>propose\<close>, in order, followed by
  either the error it threw or the proposal it returned (\<open>None\<close> for a return
  without a \<open>{proposal}\<close> value).
\<close>

type_synonym ('p, 'c) action_fn = "'c \<Rightarrow> 'p list \<times> (err + 'p option)"

record ('s, 'p, 'c) app =
  Accept :: "'s \<Rightarrow> 'p \<Rightarrow> 's \<times> err option"
  Actions :: "name \<rightharpoonup> ('p, 'c) action_fn"
  nextAction :: "('s \<Rightarrow> err + (name \<times> 'c) list) option"

datatype ('p, 'c) task =
    TAccept 'p
  | TNext
  | TCall name 'c
  | TThrow err

datatype ('p, 'c) event =
    EvAccept 'p
  | EvNext
  | EvCall name 'c

record ('s, 'p, 'c) loop_state =
  model_state :: 's
  model_pending :: "('p, 'c) task list"
  model_trace :: "('p, 'c) event list"

datatype 'm step_result = Continue 'm | Stop | Fail err 'm

datatype 'm outcome = Done 'm | Failed err 'm | OutOfFuel 'm

section \<open>Operations\<close>

definition returned_tasks :: "err + 'p option \<Rightarrow> ('p, 'c) task list" where
  "returned_tasks r =
     (case r of Inl e \<Rightarrow> [TThrow e] | Inr None \<Rightarrow> [] | Inr (Some p) \<Rightarrow> [TAccept p])"

text \<open>
  One step of the loop, on the task at the top of the stack:
  \<^item> \<open>TAccept p\<close>: Accept runs on the state; on success Next-Action is the next task,
    on an exception the run stops with the state Accept left (no rollback);
  \<^item> \<open>TNext\<close>: if Next-Action is supplied it runs on the new state and the action
    calls it makes become the next tasks, in order;
  \<^item> \<open>TCall n c\<close>: the wrapped action \<open>n\<close> runs; its proposals are accepted in order,
    then its returned proposal or its exception;
  \<^item> \<open>TThrow e\<close>: an action's exception reaches the caller.
\<close>

fun loop_step :: "('s, 'p, 'c) app \<Rightarrow> ('s, 'p, 'c) loop_state \<Rightarrow> ('s, 'p, 'c) loop_state step_result" where
  "loop_step A m =
     (case model_pending m of
        [] \<Rightarrow> Stop
      | TAccept p # ts \<Rightarrow>
          (case Accept A (model_state m) p of
             (s', None) \<Rightarrow> Continue (m\<lparr>model_state := s', model_pending := TNext # ts,
                                       model_trace := model_trace m @ [EvAccept p]\<rparr>)
           | (s', Some e) \<Rightarrow> Fail e (m\<lparr>model_state := s', model_pending := ts,
                                       model_trace := model_trace m @ [EvAccept p]\<rparr>))
      | TNext # ts \<Rightarrow>
          (case nextAction A of
             None \<Rightarrow> Continue (m\<lparr>model_pending := ts\<rparr>)
           | Some na \<Rightarrow>
               (case na (model_state m) of
                  Inl e \<Rightarrow> Fail e (m\<lparr>model_pending := ts, model_trace := model_trace m @ [EvNext]\<rparr>)
                | Inr calls \<Rightarrow> Continue (m\<lparr>model_pending := map (\<lambda>(n, c). TCall n c) calls @ ts,
                                            model_trace := model_trace m @ [EvNext]\<rparr>)))
      | TCall n c # ts \<Rightarrow>
          (case Actions A n of
             None \<Rightarrow> Fail (UnknownAction n) (m\<lparr>model_pending := ts\<rparr>)
           | Some f \<Rightarrow>
               (case f c of
                  (ps, r) \<Rightarrow> Continue (m\<lparr>model_pending := map TAccept ps @ returned_tasks r @ ts,
                                         model_trace := model_trace m @ [EvCall n c]\<rparr>)))
      | TThrow e # ts \<Rightarrow> Fail e (m\<lparr>model_pending := ts\<rparr>))"

text \<open>The run: one unit of fuel per step.\<close>

fun run :: "('s, 'p, 'c) app \<Rightarrow> nat \<Rightarrow> ('s, 'p, 'c) loop_state \<Rightarrow> ('s, 'p, 'c) loop_state outcome" where
  "run A 0 m = OutOfFuel m"
| "run A (Suc n) m =
     (case loop_step A m of
        Stop \<Rightarrow> Done m
      | Fail e m' \<Rightarrow> Failed e m'
      | Continue m' \<Rightarrow> run A n m')"

definition start :: "'s \<Rightarrow> ('p, 'c) task \<Rightarrow> ('s, 'p, 'c) loop_state" where
  "start s t = \<lparr>model_state = s, model_pending = [t], model_trace = []\<rparr>"

text \<open>The two entry points the core loop hands out: \<open>accept\<close> and the wrapped actions.\<close>

definition loop_accept :: "('s, 'p, 'c) app \<Rightarrow> nat \<Rightarrow> 's \<Rightarrow> 'p \<Rightarrow> ('s, 'p, 'c) loop_state outcome" where
  "loop_accept A fuel s p = run A fuel (start s (TAccept p))"

definition loop_action :: "('s, 'p, 'c) app \<Rightarrow> nat \<Rightarrow> 's \<Rightarrow> name \<Rightarrow> 'c \<Rightarrow> ('s, 'p, 'c) loop_state outcome" where
  "loop_action A fuel s n c = run A fuel (start s (TCall n c))"

fun outcome_state :: "'m outcome \<Rightarrow> 'm" where
  "outcome_state (Done m) = m"
| "outcome_state (Failed e m) = m"
| "outcome_state (OutOfFuel m) = m"

section \<open>Abstract view: the accepted proposals\<close>

fun accepted :: "('p, 'c) event list \<Rightarrow> 'p list" where
  "accepted [] = []"
| "accepted (EvAccept p # es) = p # accepted es"
| "accepted (EvNext # es) = accepted es"
| "accepted (EvCall n c # es) = accepted es"

definition accept_fold :: "('s, 'p, 'c) app \<Rightarrow> 's \<Rightarrow> 'p list \<Rightarrow> 's" where
  "accept_fold A s ps = foldl (\<lambda>s p. fst (Accept A s p)) s ps"

text \<open>A trace in which every Accept is immediately followed by the Next-Action hook.\<close>

fun paired :: "('p, 'c) event list \<Rightarrow> bool" where
  "paired [] = True"
| "paired (EvAccept p # EvNext # es) = paired es"
| "paired (EvAccept p # es) = False"
| "paired (EvNext # es) = False"
| "paired (EvCall n c # es) = paired es"

text \<open>A run has finished when it stopped or failed before its fuel ran out.\<close>

fun finished :: "'m outcome \<Rightarrow> bool" where
  "finished (OutOfFuel m) = False"
| "finished _ = True"

text \<open>
  The invariant behind the pairing of Accept and Next-Action: either the trace is
  paired and no Next-Action step is pending, or the trace is a paired one followed by
  one Accept and the Next-Action step is the next task.
\<close>

definition pair_inv :: "('s, 'p, 'c) loop_state \<Rightarrow> bool" where
  "pair_inv m \<longleftrightarrow>
     (paired (model_trace m) \<and> TNext \<notin> set (model_pending m)) \<or>
     (\<exists>tr p ts. model_trace m = tr @ [EvAccept p] \<and> paired tr \<and>
                model_pending m = TNext # ts \<and> TNext \<notin> set ts)"


section \<open>Lemmas: one step of the machine\<close>

lemma accepted_append [simp]: "accepted (xs @ ys) = accepted xs @ accepted ys"
  by (induction xs rule: accepted.induct) auto

lemma accept_fold_snoc [simp]:
  "accept_fold A s (xs @ [p]) = fst (Accept A (accept_fold A s xs) p)"
  by (simp add: accept_fold_def)

lemma TNext_notin_returned [simp]: "TNext \<notin> set (returned_tasks r)"
  by (simp add: returned_tasks_def split: sum.splits option.splits)

lemma loop_step_Nil [loop_simps]: "model_pending m = [] \<Longrightarrow> loop_step A m = Stop"
  by simp

lemma loop_step_TAccept [loop_simps]:
  "model_pending m = TAccept p # ts \<Longrightarrow> loop_step A m =
     (case Accept A (model_state m) p of
        (s', None) \<Rightarrow> Continue (m\<lparr>model_state := s', model_pending := TNext # ts,
                                  model_trace := model_trace m @ [EvAccept p]\<rparr>)
      | (s', Some e) \<Rightarrow> Fail e (m\<lparr>model_state := s', model_pending := ts,
                                  model_trace := model_trace m @ [EvAccept p]\<rparr>))"
  by simp

lemma loop_step_TNext [loop_simps]:
  "model_pending m = TNext # ts \<Longrightarrow> loop_step A m =
     (case nextAction A of
        None \<Rightarrow> Continue (m\<lparr>model_pending := ts\<rparr>)
      | Some na \<Rightarrow>
          (case na (model_state m) of
             Inl e \<Rightarrow> Fail e (m\<lparr>model_pending := ts, model_trace := model_trace m @ [EvNext]\<rparr>)
           | Inr calls \<Rightarrow> Continue (m\<lparr>model_pending := map (\<lambda>(n, c). TCall n c) calls @ ts,
                                       model_trace := model_trace m @ [EvNext]\<rparr>)))"
  by simp

lemma loop_step_TCall [loop_simps]:
  "model_pending m = TCall n c # ts \<Longrightarrow> loop_step A m =
     (case Actions A n of
        None \<Rightarrow> Fail (UnknownAction n) (m\<lparr>model_pending := ts\<rparr>)
      | Some f \<Rightarrow>
          (case f c of
             (ps, r) \<Rightarrow> Continue (m\<lparr>model_pending := map TAccept ps @ returned_tasks r @ ts,
                                    model_trace := model_trace m @ [EvCall n c]\<rparr>)))"
  by simp

lemma loop_step_TThrow [loop_simps]:
  "model_pending m = TThrow e # ts \<Longrightarrow> loop_step A m = Fail e (m\<lparr>model_pending := ts\<rparr>)"
  by simp

declare loop_step.simps [simp del]

lemma loop_step_fold:
  assumes inv: "model_state m = accept_fold A s0 (accepted (model_trace m))"
    and step: "loop_step A m = Continue m' \<or> loop_step A m = Fail e m'"
  shows "model_state m' = accept_fold A s0 (accepted (model_trace m'))"
proof (cases "model_pending m")
  case Nil
  with step show ?thesis by (simp add: loop_simps)
next
  case (Cons t ts)
  with step inv show ?thesis
    by (cases t) (auto simp: loop_simps split: prod.splits option.splits sum.splits)
qed

lemma loop_step_Stop_iff: "loop_step A m = Stop \<longleftrightarrow> model_pending m = []"
proof (cases "model_pending m")
  case Nil
  then show ?thesis by (simp add: loop_simps)
next
  case (Cons t ts)
  then show ?thesis
    by (cases t) (auto simp: loop_simps split: prod.splits option.splits sum.splits)
qed


section \<open>Lemmas: runs\<close>

lemma run_fuel_mono:
  "finished (run A n m) \<Longrightarrow> n \<le> k \<Longrightarrow> run A k m = run A n m"
proof (induction n arbitrary: m k)
  case 0
  then show ?case by simp
next
  case (Suc n)
  then obtain k' where k: "k = Suc k'" and nk: "n \<le> k'" by (cases k) auto
  show ?case
  proof (cases "loop_step A m")
    case (Continue m')
    with Suc.prems(1) have "finished (run A n m')" by simp
    with nk Suc.IH have "run A k' m' = run A n m'" by blast
    with Continue k show ?thesis by simp
  qed (simp_all add: k)
qed

lemma run_Done_mono: "run A k m = Done r \<Longrightarrow> k \<le> n \<Longrightarrow> run A n m = Done r"
  using run_fuel_mono [of A k m n] by simp

lemma run_fold:
  "model_state m = accept_fold A s0 (accepted (model_trace m)) \<Longrightarrow>
   model_state (outcome_state (run A n m)) = accept_fold A s0 (accepted (model_trace (outcome_state (run A n m))))"
proof (induction n arbitrary: m)
  case 0
  then show ?case by simp
next
  case (Suc n)
  show ?case
  proof (cases "loop_step A m")
    case (Continue m')
    with Suc.prems have "model_state m' = accept_fold A s0 (accepted (model_trace m'))"
      by (blast intro: loop_step_fold)
    then have "model_state (outcome_state (run A n m')) =
               accept_fold A s0 (accepted (model_trace (outcome_state (run A n m'))))"
      by (rule Suc.IH)
    with Continue show ?thesis by simp
  next
    case Stop
    with Suc.prems show ?thesis by simp
  next
    case (Fail e m')
    with Suc.prems have "model_state m' = accept_fold A s0 (accepted (model_trace m'))"
      by (blast intro: loop_step_fold)
    with Fail show ?thesis by simp
  qed
qed

lemma run_state_is_accept_fold:
  "model_state (outcome_state (run A n (start s t))) =
     accept_fold A s (accepted (model_trace (outcome_state (run A n (start s t)))))"
  by (rule run_fold) (simp add: start_def accept_fold_def)

lemma paired_append: "paired xs \<Longrightarrow> paired (xs @ ys) = paired ys"
  by (induction xs rule: paired.induct) auto

lemma paired_count: "paired es \<Longrightarrow> length (accepted es) = count_list es EvNext"
  by (induction es rule: paired.induct) auto

lemma loop_step_pair_inv:
  assumes na: "nextAction A = Some na" and inv: "pair_inv m"
    and step: "loop_step A m = Continue m'"
  shows "pair_inv m'"
proof (cases "model_pending m")
  case Nil
  with step show ?thesis by (simp add: loop_simps)
next
  case (Cons t ts)
  show ?thesis
  proof (cases t)
    case (TAccept p)
    with inv Cons have "paired (model_trace m)" and "TNext \<notin> set ts"
      by (auto simp: pair_inv_def)
    with step Cons TAccept show ?thesis
      by (auto simp: pair_inv_def loop_simps split: prod.splits option.splits)
  next
    case TNext
    with inv Cons obtain tr p where "model_trace m = tr @ [EvAccept p]" "paired tr"
      and "TNext \<notin> set ts"
      by (auto simp: pair_inv_def)
    with step Cons TNext na show ?thesis
      by (auto simp: pair_inv_def paired_append loop_simps split: sum.splits)
  next
    case (TCall n c)
    with inv Cons have "paired (model_trace m)" and "TNext \<notin> set ts"
      by (auto simp: pair_inv_def)
    with step Cons TCall show ?thesis
      by (auto simp: pair_inv_def paired_append loop_simps split: option.splits prod.splits)
  next
    case (TThrow e)
    with step Cons show ?thesis by (simp add: loop_simps)
  qed
qed

lemma run_pair_inv:
  "nextAction A = Some na \<Longrightarrow> pair_inv m \<Longrightarrow> run A n m = Done r \<Longrightarrow> paired (model_trace r)"
proof (induction n arbitrary: m)
  case 0
  then show ?case by simp
next
  case (Suc n)
  show ?case
  proof (cases "loop_step A m")
    case (Continue m')
    with Suc.prems(1,2) have "pair_inv m'" by (blast intro: loop_step_pair_inv)
    moreover from Continue Suc.prems(3) have "run A n m' = Done r" by simp
    ultimately show ?thesis by (rule Suc.IH [OF Suc.prems(1)])
  next
    case Stop
    then have "model_pending m = []" by (simp add: loop_step_Stop_iff)
    with Stop Suc.prems show ?thesis by (auto simp: pair_inv_def)
  next
    case (Fail e m')
    with Suc.prems show ?thesis by simp
  qed
qed

lemma next_action_once_per_accept:
  assumes "nextAction A \<noteq> None" and "loop_accept A n s p = Done r"
  shows "paired (model_trace r) \<and> length (accepted (model_trace r)) = count_list (model_trace r) EvNext"
proof -
  from assms(1) obtain na where na: "nextAction A = Some na" by auto
  have "pair_inv (start s (TAccept p))" by (simp add: pair_inv_def start_def)
  then have "paired (model_trace r)"
    using assms(2) unfolding loop_accept_def by (rule run_pair_inv [OF na])
  then show ?thesis by (simp add: paired_count)
qed

lemma accept_throw_stops:
  assumes "Accept A s p = (s', Some e)"
  shows "loop_accept A (Suc n) s p =
           Failed e \<lparr>model_state = s', model_pending = [], model_trace = [EvAccept p]\<rparr>"
  using assms by (simp add: loop_accept_def start_def loop_simps)

lemma server_accept_terminates:
  assumes "nextAction A = None"
  shows "loop_accept A 3 s p =
    (case Accept A s p of
       (s', None) \<Rightarrow> Done \<lparr>model_state = s', model_pending = [], model_trace = [EvAccept p]\<rparr>
     | (s', Some e) \<Rightarrow> Failed e \<lparr>model_state = s', model_pending = [], model_trace = [EvAccept p]\<rparr>)"
  using assms
  by (simp add: loop_accept_def start_def numeral_3_eq_3 loop_simps split: prod.splits option.splits)

end
