(* ===== verification/Core_Async.thy ===== *)
theory Core_Async
  imports Core_Loop
begin

text \<open>
  Overlapping asynchronous calls of the core loop (spec 4.1, re-entrancy, and spec 5).
  Every invocation from outside (an \<open>accept\<close> or a wrapped action called by the
  application or by a click) is a thread: the stack of tasks it awaits, run by the
  steps of \<open>Core_Loop\<close>. Threads interleave at every step, all on the one shared state.
  A call made without \<open>await\<close>, as the README's \<open>nextAction\<close> makes its call of
  \<open>exampleAction\<close>, is detached into a thread of its own. An exception rejects the
  invocation whose thread raised it: the thread is dropped and the error recorded; the
  other threads go on with the state as it is. Accept runs atomically between two
  steps (a synchronous Accept, like the README's).
\<close>

section \<open>Definitions\<close>

record ('s, 'p, 'c) async_state =
  a_state :: 's
  a_threads :: "('p, 'c) task list list"
  a_trace :: "('p, 'c) event list"
  a_rejected :: "err list"

text \<open>The view of the machine that thread \<open>i\<close> steps on.\<close>

definition thread_view :: "('s, 'p, 'c) async_state \<Rightarrow> nat \<Rightarrow> ('s, 'p, 'c) loop_state" where
  "thread_view as i =
     \<lparr>model_state = a_state as, model_pending = a_threads as ! i, model_trace = a_trace as\<rparr>"

inductive async_step :: "('s, 'p, 'c) app \<Rightarrow> ('s, 'p, 'c) async_state \<Rightarrow> ('s, 'p, 'c) async_state \<Rightarrow> bool"
  for A :: "('s, 'p, 'c) app" where
  run_task: "i < length (a_threads as) \<Longrightarrow> loop_step A (thread_view as i) = Continue m \<Longrightarrow>
    async_step A as (as\<lparr>a_state := model_state m, a_threads := (a_threads as)[i := model_pending m],
                       a_trace := model_trace m\<rparr>)"
| reject: "i < length (a_threads as) \<Longrightarrow> loop_step A (thread_view as i) = Fail e m \<Longrightarrow>
    async_step A as (as\<lparr>a_state := model_state m, a_threads := (a_threads as)[i := []],
                       a_trace := model_trace m, a_rejected := a_rejected as @ [e]\<rparr>)"
| detach: "i < length (a_threads as) \<Longrightarrow> a_threads as ! i = TCall n c # ts \<Longrightarrow>
    async_step A as (as\<lparr>a_threads := (a_threads as)[i := ts] @ [[TCall n c]]\<rparr>)"
| invoke_accept: "async_step A as (as\<lparr>a_threads := a_threads as @ [[TAccept p]]\<rparr>)"
| invoke_action: "async_step A as (as\<lparr>a_threads := a_threads as @ [[TCall n c]]\<rparr>)"

definition async_init :: "'s \<Rightarrow> ('s, 'p, 'c) async_state" where
  "async_init s = \<lparr>a_state = s, a_threads = [], a_trace = [], a_rejected = []\<rparr>"

definition pending_next :: "('p, 'c) task list list \<Rightarrow> nat" where
  "pending_next ths = sum_list (map (\<lambda>th. count_list th TNext) ths)"

definition quiescent :: "('s, 'p, 'c) async_state \<Rightarrow> bool" where
  "quiescent as \<longleftrightarrow> list_all (\<lambda>th. th = []) (a_threads as)"

text \<open>
  The invariant of the interleaved machine: the state is Accept folded over the accepted
  proposals in the order their Accepts ran; a Next-Action task only ever heads a thread;
  Next-Action has run or is due at most once per Accept, and exactly once as long as
  no Accept has thrown.
\<close>

definition async_inv :: "('s, 'p, 'c) app \<Rightarrow> 's \<Rightarrow> ('s, 'p, 'c) async_state \<Rightarrow> bool" where
  "async_inv A s0 as \<longleftrightarrow>
     a_state as = accept_fold A s0 (accepted (a_trace as)) \<and>
     list_all (\<lambda>th. TNext \<notin> set (tl th)) (a_threads as) \<and>
     count_list (a_trace as) EvNext + pending_next (a_threads as) \<le> length (accepted (a_trace as)) \<and>
     (a_rejected as = [] \<longrightarrow>
        count_list (a_trace as) EvNext + pending_next (a_threads as) = length (accepted (a_trace as)))"

section \<open>Lemmas\<close>

lemma invoke_two:
  "(async_step A)\<^sup>*\<^sup>* (async_init s) \<lparr>a_state = s, a_threads = [[t1], [t2]], a_trace = [], a_rejected = []\<rparr>"
  if "t1 = TCall n1 c1" "t2 = TCall n2 c2"
proof -
  have "async_step A (async_init s) ((async_init s)\<lparr>a_threads := a_threads (async_init s) @ [[TCall n1 c1]]\<rparr>)"
    by (rule invoke_action)
  moreover have "async_step A ((async_init s)\<lparr>a_threads := a_threads (async_init s) @ [[TCall n1 c1]]\<rparr>)
      (((async_init s)\<lparr>a_threads := a_threads (async_init s) @ [[TCall n1 c1]]\<rparr>)\<lparr>a_threads :=
         a_threads ((async_init s)\<lparr>a_threads := a_threads (async_init s) @ [[TCall n1 c1]]\<rparr>) @ [[TCall n2 c2]]\<rparr>)"
    by (rule invoke_action)
  ultimately show ?thesis using that by (simp add: async_init_def)
qed


lemma sum_list_map_update:
  "i < length xs \<Longrightarrow> sum_list (map f (xs[i := y])) + f (xs ! i) = sum_list (map f xs) + (f y :: nat)"
  by (induction xs arbitrary: i) (auto split: nat.splits)

lemma list_all_update: "list_all P xs \<Longrightarrow> P y \<Longrightarrow> list_all P (xs[i := y])"
  by (auto simp: list_all_iff dest: subsetD [OF set_update_subset_insert])

lemma TNext_notin_tl: "TNext \<notin> set xs \<Longrightarrow> TNext \<notin> set (tl xs)"
  by (cases xs) auto

lemma TNext_notin_calls [simp]: "TNext \<notin> set (map (\<lambda>(n, c). TCall n c) cs)"
  by auto

lemma loop_step_counts:
  assumes na: "nextAction A \<noteq> None" and hd: "TNext \<notin> set (tl (model_pending m))"
    and step: "loop_step A m = Continue m'"
  shows "TNext \<notin> set (tl (model_pending m')) \<and>
         count_list (model_trace m') EvNext + count_list (model_pending m') TNext + length (accepted (model_trace m)) =
         count_list (model_trace m) EvNext + count_list (model_pending m) TNext + length (accepted (model_trace m'))"
proof (cases "model_pending m")
  case Nil
  with step show ?thesis by (simp add: loop_simps)
next
  case (Cons t ts)
  with hd have ts: "TNext \<notin> set ts" by simp
  show ?thesis
  proof (cases t)
    case (TAccept p)
    with Cons step ts show ?thesis by (auto simp: loop_simps split: prod.splits option.splits)
  next
    case TNext
    with na obtain f where "nextAction A = Some f" by auto
    with Cons TNext step ts show ?thesis
      by (auto simp: loop_simps count_list_0_iff intro!: TNext_notin_tl split: sum.splits)
  next
    case (TCall n c)
    with Cons step ts show ?thesis
      by (auto simp: loop_simps returned_tasks_def count_list_0_iff intro!: TNext_notin_tl
               split: option.splits prod.splits sum.splits)
  next
    case (TThrow e)
    with Cons step show ?thesis by (simp add: loop_simps)
  qed
qed

lemma loop_step_fail_counts:
  assumes hd: "TNext \<notin> set (tl (model_pending m))" and step: "loop_step A m = Fail e m'"
  shows "count_list (model_trace m') EvNext + length (accepted (model_trace m)) \<le>
         count_list (model_trace m) EvNext + count_list (model_pending m) TNext + length (accepted (model_trace m'))"
proof (cases "model_pending m")
  case Nil
  with step show ?thesis by (simp add: loop_simps)
next
  case (Cons t ts)
  then show ?thesis
    using step by (cases t) (auto simp: loop_simps split: prod.splits option.splits sum.splits)
qed

lemma async_step_inv:
  assumes na: "nextAction A \<noteq> None" and step: "async_step A as as'" and inv: "async_inv A s0 as"
  shows "async_inv A s0 as'"
  using step
proof cases
  case (run_task i m)
  let ?m0 = "thread_view as i"
  have hd: "TNext \<notin> set (tl (model_pending ?m0))"
    using inv run_task(2) by (simp add: async_inv_def thread_view_def list_all_length)
  from loop_step_counts [OF na hd run_task(3)]
  have c: "TNext \<notin> set (tl (model_pending m))"
    "count_list (model_trace m) EvNext + count_list (model_pending m) TNext + length (accepted (a_trace as)) =
     count_list (a_trace as) EvNext + count_list (a_threads as ! i) TNext + length (accepted (model_trace m))"
    by (simp_all add: thread_view_def)
  have fold: "model_state m = accept_fold A s0 (accepted (model_trace m))"
    by (rule loop_step_fold [of ?m0]) (use inv run_task(3) in \<open>simp_all add: async_inv_def thread_view_def\<close>)
  have sum: "pending_next ((a_threads as)[i := model_pending m]) + count_list (a_threads as ! i) TNext =
             pending_next (a_threads as) + count_list (model_pending m) TNext"
    unfolding pending_next_def by (rule sum_list_map_update [OF run_task(2)])
  from inv c fold sum run_task(1) show ?thesis
    by (auto simp: async_inv_def intro: list_all_update)
next
  case (reject i e m)
  let ?m0 = "thread_view as i"
  have hd: "TNext \<notin> set (tl (model_pending ?m0))"
    using inv reject(2) by (simp add: async_inv_def thread_view_def list_all_length)
  from loop_step_fail_counts [OF hd reject(3)]
  have c: "count_list (model_trace m) EvNext + length (accepted (a_trace as)) \<le>
     count_list (a_trace as) EvNext + count_list (a_threads as ! i) TNext + length (accepted (model_trace m))"
    by (simp add: thread_view_def)
  have fold: "model_state m = accept_fold A s0 (accepted (model_trace m))"
    by (rule loop_step_fold [of ?m0]) (use inv reject(3) in \<open>simp_all add: async_inv_def thread_view_def\<close>)
  have sum: "pending_next ((a_threads as)[i := []]) + count_list (a_threads as ! i) TNext =
             pending_next (a_threads as)"
    using sum_list_map_update [OF reject(2), of "\<lambda>th. count_list th TNext" "[]"] by (simp add: pending_next_def)
  from inv c fold sum reject(1) show ?thesis
    by (auto simp: async_inv_def intro: list_all_update)
next
  case (detach i n c ts)
  have sum: "pending_next ((a_threads as)[i := ts]) + count_list (a_threads as ! i) TNext =
             pending_next (a_threads as) + count_list ts TNext"
    unfolding pending_next_def by (rule sum_list_map_update [OF detach(2)])
  have ts: "TNext \<notin> set ts" using inv detach(2,3) by (auto simp: async_inv_def list_all_length)
  then have "TNext \<notin> set (tl ts)" by (rule TNext_notin_tl)
  with inv sum ts detach show ?thesis
    by (auto simp: async_inv_def pending_next_def intro: list_all_update)
next
  case (invoke_accept p)
  with inv show ?thesis by (simp add: async_inv_def pending_next_def)
next
  case (invoke_action n c)
  with inv show ?thesis by (simp add: async_inv_def pending_next_def)
qed


lemma async_reachable_inv:
  assumes "nextAction A \<noteq> None" and "(async_step A)\<^sup>*\<^sup>* (async_init s) as"
  shows "async_inv A s as"
  using assms(2)
proof (induction rule: rtranclp_induct)
  case base
  then show ?case by (simp add: async_init_def async_inv_def pending_next_def accept_fold_def)
next
  case (step y z)
  show ?case by (rule async_step_inv [OF assms(1) step.hyps(2) step.IH])
qed

lemma async_step_fold:
  assumes "async_step A as as'" and "a_state as = accept_fold A s0 (accepted (a_trace as))"
  shows "a_state as' = accept_fold A s0 (accepted (a_trace as'))"
  using assms(1)
proof cases
  case (run_task i m)
  have "model_state m = accept_fold A s0 (accepted (model_trace m))"
    by (rule loop_step_fold [of "thread_view as i"]) (use assms(2) run_task(3) in \<open>simp_all add: thread_view_def\<close>)
  with run_task(1) show ?thesis by simp
next
  case (reject i e m)
  have "model_state m = accept_fold A s0 (accepted (model_trace m))"
    by (rule loop_step_fold [of "thread_view as i"]) (use assms(2) reject(3) in \<open>simp_all add: thread_view_def\<close>)
  with reject(1) show ?thesis by simp
qed (use assms(2) in simp_all)

text \<open>
  With any number of overlapping invocations interleaved in any order, Accept stays
  the only writer of the state: the state is the initial state with Accept applied to the
  accepted proposals in the order their Accepts ran.
\<close>

lemma async_state_is_accept_fold:
  assumes "(async_step A)\<^sup>*\<^sup>* (async_init s) as"
  shows "a_state as = accept_fold A s (accepted (a_trace as))"
  using assms
proof (induction rule: rtranclp_induct)
  case base
  then show ?case by (simp add: async_init_def accept_fold_def)
next
  case (step y z)
  show ?case by (rule async_step_fold [OF step.hyps(2) step.IH])
qed

lemma pending_next_quiescent: "quiescent as \<Longrightarrow> pending_next (a_threads as) = 0"
  by (induction "a_threads as" arbitrary: as) (auto simp: quiescent_def pending_next_def list_all_iff)

text \<open>
  Spec 8's Next-Action property under overlapping invocations: Next-Action never runs
  more often than Accept, and once every invocation has finished with none rejected it
  has run exactly once per Accept.
\<close>

lemma async_next_action_per_accept:
  assumes "nextAction A \<noteq> None" and "(async_step A)\<^sup>*\<^sup>* (async_init s) as"
  shows "count_list (a_trace as) EvNext \<le> length (accepted (a_trace as)) \<and>
         (quiescent as \<and> a_rejected as = [] \<longrightarrow> count_list (a_trace as) EvNext = length (accepted (a_trace as)))"
  using async_reachable_inv [OF assms] pending_next_quiescent [of as] by (auto simp: async_inv_def)

lemma run_thread:
  assumes "run A n \<lparr>model_state = a_state as, model_pending = a_threads as ! i, model_trace = a_trace as\<rparr> = Done m"
    and "i < length (a_threads as)"
  shows "(async_step A)\<^sup>*\<^sup>* as (as\<lparr>a_state := model_state m, a_threads := (a_threads as)[i := []],
                                     a_trace := model_trace m\<rparr>)"
  using assms
proof (induction n arbitrary: as)
  case 0
  then show ?case by simp
next
  case (Suc n)
  show ?case
  proof (cases "loop_step A (thread_view as i)")
    case (Continue m1)
    let ?as1 = "as\<lparr>a_state := model_state m1, a_threads := (a_threads as)[i := model_pending m1],
                   a_trace := model_trace m1\<rparr>"
    have st: "async_step A as ?as1" by (rule run_task [OF Suc.prems(2) Continue])
    have r: "run A n m1 = Done m" using Suc.prems(1) Continue by (simp add: thread_view_def)
    have eta: "\<lparr>model_state = model_state m1, model_pending = model_pending m1, model_trace = model_trace m1\<rparr> = m1"
      by (cases m1) simp
    have "(async_step A)\<^sup>*\<^sup>* ?as1 (?as1\<lparr>a_state := model_state m, a_threads := (a_threads ?as1)[i := []],
                                        a_trace := model_trace m\<rparr>)"
      using Suc.IH [of ?as1] r eta Suc.prems(2) by simp
    with st show ?thesis by simp
  next
    case Stop
    then have "model_pending (thread_view as i) = []" by (simp add: loop_step_Stop_iff)
    moreover have "m = thread_view as i" using Suc.prems(1) Stop by (simp add: thread_view_def)
    ultimately have "as\<lparr>a_state := model_state m, a_threads := (a_threads as)[i := []], a_trace := model_trace m\<rparr> = as"
      by (cases as) (simp add: thread_view_def, metis list_update_id)
    then show ?thesis by simp
  next
    case (Fail e m1)
    with Suc.prems(1) show ?thesis by (simp add: thread_view_def)
  qed
qed

text \<open>
  The core loop of \<open>Core_Loop\<close>, where every call is awaited, is one schedule of the
  interleaved machine: a finished run of an invocation is a sequence of steps of its
  thread alone.
\<close>

lemma async_refines_run:
  assumes "run A n m = Done m'"
  shows "(async_step A)\<^sup>*\<^sup>*
           \<lparr>a_state = model_state m, a_threads = [model_pending m], a_trace = model_trace m, a_rejected = []\<rparr>
           \<lparr>a_state = model_state m', a_threads = [[]], a_trace = model_trace m', a_rejected = []\<rparr>"
proof -
  have eta: "\<lparr>model_state = model_state m, model_pending = model_pending m, model_trace = model_trace m\<rparr> = m"
    by (cases m) simp
  show ?thesis
    using run_thread [of A n "\<lparr>a_state = model_state m, a_threads = [model_pending m], a_trace = model_trace m,
      a_rejected = []\<rparr>" 0 m'] assms eta by simp
qed

end
