(* ===== verification/Example_App.thy ===== *)
theory Example_App
  imports Core_Loop JsValue
begin

text \<open>
  The example application of the README (src/README.md, lines 41--68): the actions
  object with \<open>exampleAction\<close>, the Accept function and the Next-Action function,
  translated statement by statement over the JavaScript value model, and run through
  the core loop. The action arguments are the JavaScript argument list.
\<close>

section \<open>Definitions\<close>

type_synonym js_app = "(jsval, jsval, jsval list) app"

text \<open>The first argument of a call, \<open>undefined\<close> when there is none.\<close>

definition arg0 :: "jsval list \<Rightarrow> jsval" where
  "arg0 args = (case args of [] \<Rightarrow> JUndef | a # _ \<Rightarrow> a)"

text \<open>
  \<^verbatim>\<open>async exampleAction({ value }) {
    if (typeof value !== "string") { return; }
    await propose({ proposal: { value } });
  }\<close>
\<close>

definition exampleAction :: "(jsval, jsval list) action_fn" where
  "exampleAction args =
     (case js_get (arg0 args) ''value'' of
        Inl e \<Rightarrow> ([], Inl e)
      | Inr value \<Rightarrow>
          (if js_typeof value \<noteq> ''string'' then ([], Inr None)
           else ([JObj [(''proposal'', JObj [(''value'', value)])]], Inr None)))"

definition Actions_example :: "name \<rightharpoonup> (jsval, jsval list) action_fn" where
  "Actions_example = [''exampleAction'' \<mapsto> exampleAction]"

text \<open>
  \<^verbatim>\<open>({ proposal }) => {
    if (proposal.route !== undefined) { state.route = proposal.route; }
    if (proposal.value !== undefined) { state.bar = proposal.value; }
  }\<close>
  The destructuring of the argument and each property access can throw; a throw after
  the first write leaves that write in place.
\<close>

definition Accept_example :: "jsval \<Rightarrow> jsval \<Rightarrow> jsval \<times> err option" where
  "Accept_example state arg =
     (case js_get arg ''proposal'' of
        Inl e \<Rightarrow> (state, Some e)
      | Inr proposal \<Rightarrow>
          (case js_get proposal ''route'' of
             Inl e \<Rightarrow> (state, Some e)
           | Inr route \<Rightarrow>
               (case (if route \<noteq> JUndef then js_set state ''route'' route else Inr state) of
                  Inl e \<Rightarrow> (state, Some e)
                | Inr s1 \<Rightarrow>
                    (case js_get proposal ''value'' of
                       Inl e \<Rightarrow> (s1, Some e)
                     | Inr value \<Rightarrow>
                         (case (if value \<noteq> JUndef then js_set s1 ''bar'' value else Inr s1) of
                            Inl e \<Rightarrow> (s1, Some e)
                          | Inr s2 \<Rightarrow> (s2, None))))))"

text \<open>
  \<^verbatim>\<open>({ state, actions }) => {
    if (state.foo) { actions.exampleAction({ value: "abc" }); }
  }\<close>
  The call is not awaited. The core loop of \<open>Core_Loop\<close> runs it as the next task of
  the same run (so an exception in it ends that run); \<open>Core_Async\<close> also lets it be
  detached into an invocation of its own, which is what the missing \<open>await\<close> does.
\<close>

definition nextAction_example :: "jsval \<Rightarrow> err + (name \<times> jsval list) list" where
  "nextAction_example state =
     (case js_get state ''foo'' of
        Inl e \<Rightarrow> Inl e
      | Inr foo \<Rightarrow>
          Inr (if js_truthy foo then [(''exampleAction'', [JObj [(''value'', JStr ''abc'')]])] else []))"

text \<open>The client-side loop of the example.\<close>

definition example_app :: js_app where
  "example_app = \<lparr>Accept = Accept_example, Actions = Actions_example,
                  nextAction = Some nextAction_example\<rparr>"

text \<open>
  The states from which the example's Next-Action chain cycles: \<open>foo\<close> is truthy
  and the pending work is one step of the cycle call, accept, Next-Action.
\<close>

definition cycling :: "(jsval, jsval, jsval list) loop_state \<Rightarrow> bool" where
  "cycling m \<longleftrightarrow>
     (\<exists>kvs. model_state m = JObj kvs \<and> js_truthy (js_prop kvs ''foo'')) \<and>
     (\<exists>s. model_pending m = [TCall ''exampleAction'' [JObj [(''value'', JStr s)]]] \<or>
          model_pending m = [TAccept (JObj [(''proposal'', JObj [(''value'', JStr s)])])] \<or>
          model_pending m = [TNext])"

section \<open>Lemmas\<close>

lemma Accept_example_value:
  "Accept_example (JObj kvs) (JObj [(''proposal'', JObj [(''value'', v)])]) =
     (if v = JUndef then (JObj kvs, None) else (JObj (AList.update ''bar'' v kvs), None))"
  by (simp add: Accept_example_def js_prop_def)

lemma exampleAction_value:
  "exampleAction [JObj [(''value'', v)]] =
     (if js_typeof v \<noteq> ''string'' then ([], Inr None)
      else ([JObj [(''proposal'', JObj [(''value'', v)])]], Inr None))"
  by (simp add: exampleAction_def arg0_def js_prop_def)

lemma js_prop_update_other [js_simps]:
  "k' \<noteq> k \<Longrightarrow> js_prop (AList.update k x kvs) k' = js_prop kvs k'"
  by (simp add: js_prop_update)

lemma cycling_step:
  assumes "cycling m"
  shows "\<exists>m'. loop_step example_app m = Continue m' \<and> cycling m'"
proof -
  from assms obtain kvs s where st: "model_state m = JObj kvs" and foo: "js_truthy (js_prop kvs ''foo'')"
    and pend: "model_pending m = [TCall ''exampleAction'' [JObj [(''value'', JStr s)]]] \<or>
          model_pending m = [TAccept (JObj [(''proposal'', JObj [(''value'', JStr s)])])] \<or>
          model_pending m = [TNext]"
    by (auto simp: cycling_def)
  from pend show ?thesis
  proof (elim disjE)
    assume "model_pending m = [TCall ''exampleAction'' [JObj [(''value'', JStr s)]]]"
    with st foo show ?thesis
      by (simp add: loop_simps example_app_def Actions_example_def exampleAction_value
          returned_tasks_def cycling_def)
  next
    assume "model_pending m = [TAccept (JObj [(''proposal'', JObj [(''value'', JStr s)])])]"
    with st foo show ?thesis
      by (simp add: loop_simps example_app_def Accept_example_value cycling_def js_prop_update)
  next
    assume "model_pending m = [TNext]"
    with st foo show ?thesis
      by (simp add: loop_simps example_app_def nextAction_example_def cycling_def)
  qed
qed

lemma cycling_run: "cycling m \<Longrightarrow> \<not> finished (run example_app n m)"
proof (induction n arbitrary: m)
  case 0
  then show ?case by simp
next
  case (Suc n)
  then obtain m' where "loop_step example_app m = Continue m'" and "cycling m'"
    by (blast dest: cycling_step)
  with Suc.IH show ?case by simp
qed

lemma Accept_example_unwrapped:
  assumes "js_prop akvs ''proposal'' = JUndef"
  shows "Accept_example st (JObj akvs) =
           (st, Some (TypeError ''Cannot read properties of undefined (reading route)''))"
  using assms by (simp add: Accept_example_def)

section \<open>Properties of the example application\<close>

text \<open>
  C2. Accept is the only writer of the state: whatever the run of the example's loop,
  started on an action call or a proposal, its state is the README's Accept folded over
  the proposals the run accepted, in order.
\<close>

theorem example_state_is_accept_fold:
  "model_state (outcome_state (run example_app n (start s t))) =
     foldl (\<lambda>s p. fst (Accept_example s p)) s
       (accepted (model_trace (outcome_state (run example_app n (start s t)))))"
  using run_state_is_accept_fold [of example_app n s t]
  by (simp add: accept_fold_def example_app_def)

text \<open>
  C3. In every completed run of the example's \<open>accept\<close>, each Accept is immediately
  followed by one Next-Action call and Next-Action runs exactly once per Accept.
\<close>

theorem example_next_action_once:
  assumes "loop_accept example_app n s p = Done r"
  shows "paired (model_trace r) \<and> length (accepted (model_trace r)) = count_list (model_trace r) EvNext"
  using assms by (rule next_action_once_per_accept [rotated]) (simp add: example_app_def)

theorem example_next_action_once_witness:
  "loop_accept example_app 3 (JObj [(''foo'', JBool False)])
     (JObj [(''proposal'', JObj [(''value'', JStr ''abc'')])]) =
     Done \<lparr>model_state = JObj [(''foo'', JBool False), (''bar'', JStr ''abc'')], model_pending = [],
           model_trace = [EvAccept (JObj [(''proposal'', JObj [(''value'', JStr ''abc'')])]), EvNext]\<rparr> \<and>
   paired [EvAccept (JObj [(''proposal'', JObj [(''value'', JStr ''abc'')])]), EvNext :: (jsval, jsval list) event] \<and>
   length (accepted [EvAccept (JObj [(''proposal'', JObj [(''value'', JStr ''abc'')])]), EvNext :: (jsval, jsval list) event]) =
     count_list [EvAccept (JObj [(''proposal'', JObj [(''value'', JStr ''abc'')])]), EvNext :: (jsval, jsval list) event] EvNext"
proof -
  have run: "loop_accept example_app 3 (JObj [(''foo'', JBool False)])
     (JObj [(''proposal'', JObj [(''value'', JStr ''abc'')])]) =
     Done \<lparr>model_state = JObj [(''foo'', JBool False), (''bar'', JStr ''abc'')], model_pending = [],
           model_trace = [EvAccept (JObj [(''proposal'', JObj [(''value'', JStr ''abc'')])]), EvNext]\<rparr>"
    by (simp add: loop_accept_def start_def numeral_3_eq_3 loop_simps example_app_def
        Accept_example_value nextAction_example_def js_prop_def)
  from example_next_action_once [OF run] run show ?thesis by simp
qed

text \<open>
  C4. The README's Next-Action does not converge: once \<open>state.foo\<close> is truthy, a call of
  \<open>exampleAction\<close> with a string never finishes, whatever the fuel, because each Accept
  leaves \<open>foo\<close> truthy and Next-Action calls the action again.
\<close>

theorem example_next_action_diverges:
  assumes "js_truthy (js_prop kvs ''foo'')"
  shows "\<not> finished (loop_action example_app n (JObj kvs) ''exampleAction'' [JObj [(''value'', JStr s)]])"
proof -
  from assms have "cycling (start (JObj kvs) (TCall ''exampleAction'' [JObj [(''value'', JStr s)]]))"
    by (auto simp: cycling_def start_def)
  then show ?thesis unfolding loop_action_def by (rule cycling_run)
qed

theorem example_next_action_diverges_witness:
  "js_truthy (js_prop [(''foo'', JBool True)] ''foo'') \<and>
   \<not> finished (loop_action example_app 100 (JObj [(''foo'', JBool True)]) ''exampleAction''
                 [JObj [(''value'', JStr ''abc'')]])"
  using example_next_action_diverges [of "[(''foo'', JBool True)]" 100 "''abc''"]
  by (simp add: js_prop_def)

text \<open>
  C5. Scenario A, string case: when \<open>state.foo\<close> is falsy, \<open>exampleAction({value})\<close>
  with a string proposes it once, Accept stores it in \<open>state.bar\<close>, Next-Action runs
  once and calls nothing; four steps of fuel are enough.
\<close>

theorem scenario_A_string:
  assumes "\<not> js_truthy (js_prop kvs ''foo'')" and "4 \<le> n"
  shows "loop_action example_app n (JObj kvs) ''exampleAction'' [JObj [(''value'', JStr s)]] =
           Done \<lparr>model_state = JObj (AList.update ''bar'' (JStr s) kvs), model_pending = [],
                 model_trace = [EvCall ''exampleAction'' [JObj [(''value'', JStr s)]],
                                EvAccept (JObj [(''proposal'', JObj [(''value'', JStr s)])]),
                                EvNext]\<rparr>"
proof -
  have "loop_action example_app 4 (JObj kvs) ''exampleAction'' [JObj [(''value'', JStr s)]] =
           Done \<lparr>model_state = JObj (AList.update ''bar'' (JStr s) kvs), model_pending = [],
                 model_trace = [EvCall ''exampleAction'' [JObj [(''value'', JStr s)]],
                                EvAccept (JObj [(''proposal'', JObj [(''value'', JStr s)])]),
                                EvNext]\<rparr>"
    using assms(1)
    by (simp add: loop_action_def start_def numeral_eq_Suc loop_simps example_app_def
        Actions_example_def exampleAction_value returned_tasks_def Accept_example_value
        nextAction_example_def js_prop_update)
  then show ?thesis using assms(2) unfolding loop_action_def by (rule run_Done_mono)
qed

theorem scenario_A_string_witness:
  "loop_action example_app 4 (JObj [(''foo'', JBool False)]) ''exampleAction'' [JObj [(''value'', JStr ''abc'')]] =
     Done \<lparr>model_state = JObj [(''foo'', JBool False), (''bar'', JStr ''abc'')], model_pending = [],
           model_trace = [EvCall ''exampleAction'' [JObj [(''value'', JStr ''abc'')]],
                          EvAccept (JObj [(''proposal'', JObj [(''value'', JStr ''abc'')])]),
                          EvNext]\<rparr>"
  using scenario_A_string [of "[(''foo'', JBool False)]" 4 "''abc''"]
  by (simp add: js_prop_def)

text \<open>
  C6. Scenario A, non-string case: \<open>exampleAction({value: 42})\<close> returns without
  proposing, so the state, \<open>state.bar\<close> included, is unchanged.
\<close>

theorem scenario_A_non_string:
  assumes "js_typeof v \<noteq> ''string''" and "2 \<le> n"
  shows "loop_action example_app n (JObj kvs) ''exampleAction'' [JObj [(''value'', v)]] =
           Done \<lparr>model_state = JObj kvs, model_pending = [],
                 model_trace = [EvCall ''exampleAction'' [JObj [(''value'', v)]]]\<rparr>"
proof -
  have "loop_action example_app 2 (JObj kvs) ''exampleAction'' [JObj [(''value'', v)]] =
           Done \<lparr>model_state = JObj kvs, model_pending = [],
                 model_trace = [EvCall ''exampleAction'' [JObj [(''value'', v)]]]\<rparr>"
    using assms(1)
    by (simp add: loop_action_def start_def numeral_2_eq_2 loop_simps example_app_def
        Actions_example_def exampleAction_value returned_tasks_def)
  then show ?thesis using assms(2) unfolding loop_action_def by (rule run_Done_mono)
qed

theorem scenario_A_non_string_witness:
  "loop_action example_app 4 (JObj [(''foo'', JBool True)]) ''exampleAction'' [JObj [(''value'', JNum 42)]] =
     Done \<lparr>model_state = JObj [(''foo'', JBool True)], model_pending = [],
           model_trace = [EvCall ''exampleAction'' [JObj [(''value'', JNum 42)]]]\<rparr>"
  using scenario_A_non_string [of "JNum 42" 4 "[(''foo'', JBool True)]"] by simp

text \<open>C11. A proposal with neither \<open>route\<close> nor \<open>value\<close> leaves the state as it is.\<close>

theorem accept_noop:
  assumes "js_prop akvs ''proposal'' = JObj pkvs"
    and "js_prop pkvs ''route'' = JUndef" and "js_prop pkvs ''value'' = JUndef"
  shows "Accept_example st (JObj akvs) = (st, None)"
  using assms by (simp add: Accept_example_def)

theorem accept_noop_witness:
  "Accept_example (JObj [(''bar'', JStr ''x'')]) (JObj [(''proposal'', JObj [(''title'', JStr ''t'')])]) =
     (JObj [(''bar'', JStr ''x'')], None)"
  by (rule accept_noop [where pkvs = "[(''title'', JStr ''t'')]"]) (simp_all add: js_prop_def)

text \<open>
  C12. The spec's Scenario A has Accept reject a non-string \<open>value\<close>; the README's
  Accept stores any defined value, and the type check lives in \<open>exampleAction\<close> only.
\<close>

theorem accept_stores_any_value:
  assumes "v \<noteq> JUndef"
  shows "Accept_example (JObj kvs) (JObj [(''proposal'', JObj [(''value'', v)])]) =
           (JObj (AList.update ''bar'' v kvs), None)"
  using assms by (simp add: Accept_example_value)

theorem accept_stores_any_value_witness:
  "Accept_example (JObj []) (JObj [(''proposal'', JObj [(''value'', JNum 42)])]) =
     (JObj [(''bar'', JNum 42)], None)"
  using accept_stores_any_value [of "JNum 42" "[]"] by simp

end
