(* ===== verification/Dispatch.thy ===== *)
theory Dispatch
  imports Json
begin

text \<open>
  \<open>ssrDispatch\<close> (src/src/control/server.mjs, lines 11--22) builds, on the server, the
  text of an inline event handler that records a replay entry when it runs in the
  browser before the client runtime exists. Modelled here: the text it builds, character
  for character, and a reader of that text that does what the browser's parse of it
  does with the three interpolated parts: the action name is read as a JavaScript
  single-quoted string literal, the handler is the source text between
  \<open>const handler = (\<close> and \<open>);\<close>, the arguments are the JSON text after
  \<open>const args = \<close>.
\<close>

section \<open>The generated text\<close>

text \<open>
  \<open>handler\<close> is the text \<open>${_handler}\<close> interpolates, i.e. the function's source as
  \<open>String(handler)\<close> gives it; \<open>args\<close> is the rest-parameter array.
\<close>

definition dispatch_head :: string where
  "dispatch_head = ''{'' @ [nl] @ ''    const name = '' @ [sq]"

definition dispatch_mid1 :: string where
  "dispatch_mid1 = [sq] @ '';'' @ [nl] @ ''    const handler = (''"

definition dispatch_mid2 :: string where
  "dispatch_mid2 = '');'' @ [nl] @ ''    const args = ''"

definition dispatch_tail :: string where
  "dispatch_tail =
     '';'' @ [nl] @
     ''    window.dispatcher.toReplay.push({'' @ [nl] @
     ''        name,'' @ [nl] @
     ''        handler,'' @ [nl] @
     ''        args,'' @ [nl] @
     ''        target: this,'' @ [nl] @
     ''        event,'' @ [nl] @
     ''    });'' @ [nl] @
     ''}''"

definition ssrDispatch :: "string \<Rightarrow> string \<Rightarrow> jsval list \<Rightarrow> string" where
  "ssrDispatch name handler args =
     dispatch_head @ name @ dispatch_mid1 @ handler @ dispatch_mid2 @
     json_str (JArr args) @ dispatch_tail"

section \<open>Reading the text back\<close>

text \<open>
  A JavaScript single-quoted string literal, read after its opening quote: the value
  and the text after the closing quote. A line terminator inside it is a syntax error.
\<close>

definition js_escape_value :: "char \<Rightarrow> char" where
  "js_escape_value d =
     (if d = CHR ''n'' then nl else if d = CHR ''t'' then CHR 0x09
      else if d = CHR ''r'' then CHR 0x0D else if d = CHR ''b'' then CHR 0x08
      else if d = CHR ''f'' then CHR 0x0C else if d = CHR ''v'' then CHR 0x0B
      else if d = CHR ''0'' then CHR 0x00 else d)"

fun js_sq_literal :: "string \<Rightarrow> (string \<times> string) option" where
  "js_sq_literal [] = None"
| "js_sq_literal (c # s) =
     (if c = sq then Some ([], s)
      else if c = nl \<or> c = CHR 0x0D then None
      else if c = bsl then
        (case s of
           [] \<Rightarrow> None
         | d # s' \<Rightarrow> map_option (\<lambda>(v, r). (js_escape_value d # v, r)) (js_sq_literal s'))
      else map_option (\<lambda>(v, r). (c # v, r)) (js_sq_literal s))"

fun strip_prefix :: "'a list \<Rightarrow> 'a list \<Rightarrow> 'a list option" where
  "strip_prefix [] s = Some s"
| "strip_prefix (x # xs) [] = None"
| "strip_prefix (x # xs) (y # ys) = (if x = y then strip_prefix xs ys else None)"

definition strip_suffix :: "'a list \<Rightarrow> 'a list \<Rightarrow> 'a list option" where
  "strip_suffix d s = map_option rev (strip_prefix (rev d) (rev s))"

text \<open>The split of \<open>s\<close> at the first occurrence of \<open>d\<close>, and at the last one.\<close>

fun split_first :: "'a list \<Rightarrow> 'a list \<Rightarrow> ('a list \<times> 'a list) option" where
  "split_first d [] = (if d = [] then Some ([], []) else None)"
| "split_first d (c # s) =
     (case strip_prefix d (c # s) of
        Some r \<Rightarrow> Some ([], r)
      | None \<Rightarrow> map_option (\<lambda>(a, b). (c # a, b)) (split_first d s))"

definition split_last :: "'a list \<Rightarrow> 'a list \<Rightarrow> ('a list \<times> 'a list) option" where
  "split_last d s = map_option (\<lambda>(a, b). (rev b, rev a)) (split_first (rev d) (rev s))"

text \<open>
  The three parts of a dispatch text: the value of the name literal, the handler text
  and the arguments' JSON text. The arguments' text runs from the last
  \<open>);\<newline>    const args = \<close> to the fixed tail, so the handler text may be anything.
\<close>

definition dispatch_parts :: "string \<Rightarrow> (string \<times> string \<times> string) option" where
  "dispatch_parts s =
     (case strip_prefix dispatch_head s of
        None \<Rightarrow> None
      | Some s1 \<Rightarrow>
          (case js_sq_literal s1 of
             None \<Rightarrow> None
           | Some (n, s2) \<Rightarrow>
               (case strip_prefix (tl dispatch_mid1) s2 of
                  None \<Rightarrow> None
                | Some s3 \<Rightarrow>
                    (case strip_suffix dispatch_tail s3 of
                       None \<Rightarrow> None
                     | Some s4 \<Rightarrow>
                         (case split_last dispatch_mid2 s4 of
                            None \<Rightarrow> None
                          | Some (h, a) \<Rightarrow> Some (n, h, a))))))"

text \<open>A name the literal carries unchanged: no quote, backslash or line terminator.\<close>

definition literal_safe :: "string \<Rightarrow> bool" where
  "literal_safe n \<longleftrightarrow> sq \<notin> set n \<and> bsl \<notin> set n \<and> nl \<notin> set n \<and> CHR 0x0D \<notin> set n"

section \<open>Lemmas on prefixes, suffixes and splits\<close>

lemma strip_prefix_Some_iff: "strip_prefix xs s = Some r \<longleftrightarrow> s = xs @ r"
  by (induction xs s arbitrary: r rule: strip_prefix.induct) auto

lemma strip_prefix_append [simp]: "strip_prefix xs (xs @ ys) = Some ys"
  by (simp add: strip_prefix_Some_iff)

lemma strip_suffix_append [simp]: "strip_suffix d (s @ d) = Some s"
  by (simp add: strip_suffix_def)

lemma split_first_append:
  assumes "\<forall>i < length xs. strip_prefix d (drop i xs @ d @ ys) = None"
  shows "split_first d (xs @ d @ ys) = Some (xs, ys)"
  using assms
proof (induction xs)
  case Nil
  show ?case
  proof (cases "d @ ys")
    case Nil
    then show ?thesis by simp
  next
    case (Cons c s)
    then have "strip_prefix d (c # s) = Some ys" by (simp add: strip_prefix_Some_iff)
    with Cons show ?thesis by simp
  qed
next
  case (Cons x xs)
  have "strip_prefix d (x # xs @ d @ ys) = None"
    using Cons.prems by (erule_tac x = 0 in allE) simp
  moreover have "\<forall>i < length xs. strip_prefix d (drop i xs @ d @ ys) = None"
  proof (intro allI impI)
    fix i assume "i < length xs"
    then have "strip_prefix d (drop (Suc i) (x # xs) @ d @ ys) = None"
      using Cons.prems by (simp del: drop_Suc_Cons)
    then show "strip_prefix d (drop i xs @ d @ ys) = None" by simp
  qed
  ultimately show ?case using Cons.IH by simp
qed

text \<open>
  A delimiter with a character \<open>c\<close> that the text before it lacks, and that has no
  earlier \<open>c\<close> of its own, cannot start inside that text.
\<close>

lemma no_early_occurrence:
  assumes d: "d = p @ c # q" and cp: "c \<notin> set p" and cx: "c \<notin> set xs" and i: "i < length xs"
  shows "strip_prefix d (drop i xs @ d @ ys) = None"
proof (rule ccontr)
  assume "strip_prefix d (drop i xs @ d @ ys) \<noteq> None"
  then obtain r where "drop i xs @ d @ ys = d @ r"
    by (auto simp: strip_prefix_Some_iff)
  then have eq: "(drop i xs @ d @ ys) ! length p = (d @ r) ! length p" by simp
  have rhs: "(d @ r) ! length p = c" by (simp add: d nth_append)
  let ?k = "length xs - i"
  have k: "0 < ?k" using i by simp
  show False
  proof (cases "length p < ?k")
    case True
    then have "(drop i xs @ d @ ys) ! length p = drop i xs ! length p" by (simp add: nth_append)
    moreover have "drop i xs ! length p \<in> set xs"
      using True by (metis in_set_dropD length_drop nth_mem)
    ultimately show False using eq rhs cx by simp
  next
    case False
    then have "(drop i xs @ d @ ys) ! length p = (d @ ys) ! (length p - ?k)"
      by (simp add: nth_append)
    also have "length p - ?k < length p" using False k by arith
    then have "(d @ ys) ! (length p - ?k) = p ! (length p - ?k)"
      unfolding d by (simp only: append_Cons [symmetric] append_assoc nth_append_left)
    finally have "(drop i xs @ d @ ys) ! length p = p ! (length p - ?k)" .
    then have "p ! (length p - ?k) = c" using eq rhs by simp
    moreover have "p ! (length p - ?k) \<in> set p" using False k by simp
    ultimately show False using cp by simp
  qed
qed

lemma split_last_append:
  assumes d: "d = q @ c # p" and cp: "c \<notin> set p" and cx: "c \<notin> set a"
  shows "split_last d (h @ d @ a) = Some (h, a)"
proof -
  have rd: "rev d = rev p @ c # rev q" using d by simp
  have "\<forall>i < length (rev a). strip_prefix (rev d) (drop i (rev a) @ rev d @ rev h) = None"
  proof (intro allI impI)
    fix i assume i: "i < length (rev a)"
    show "strip_prefix (rev d) (drop i (rev a) @ rev d @ rev h) = None"
      by (rule no_early_occurrence [OF rd _ _ i]) (simp_all add: cp cx)
  qed
  then have "split_first (rev d) (rev a @ rev d @ rev h) = Some (rev a, rev h)"
    by (rule split_first_append)
  then show ?thesis by (simp add: split_last_def)
qed

section \<open>Lemmas on the dispatch text\<close>

lemma js_sq_literal_plain:
  "literal_safe n \<Longrightarrow> js_sq_literal (n @ sq # r) = Some (n, r)"
  by (induction n) (auto simp: literal_safe_def)

lemma dispatch_mid1_Cons: "dispatch_mid1 = sq # tl dispatch_mid1"
  by (simp add: dispatch_mid1_def)

lemma dispatch_mid2_at_nl: "dispatch_mid2 = '');'' @ nl # ''    const args = ''"
  by (simp add: dispatch_mid2_def)

lemma nl_notin_json: "nl \<notin> set (json_str v)"
  using printable_json(1) [of v] by (auto simp: printable_def)

lemma dispatch_parts_text:
  assumes "literal_safe n" and "nl \<notin> set a"
  shows "dispatch_parts (dispatch_head @ n @ dispatch_mid1 @ h @ dispatch_mid2 @ a @ dispatch_tail) =
           Some (n, h, a)"
proof -
  have lit: "js_sq_literal (n @ dispatch_mid1 @ h @ dispatch_mid2 @ a @ dispatch_tail) =
               Some (n, tl dispatch_mid1 @ h @ dispatch_mid2 @ a @ dispatch_tail)"
    using js_sq_literal_plain [OF assms(1)] dispatch_mid1_Cons by (metis append_Cons)
  have split: "split_last dispatch_mid2 (h @ dispatch_mid2 @ a) = Some (h, a)"
    by (rule split_last_append [OF dispatch_mid2_at_nl]) (simp, rule assms(2))
  have "strip_suffix dispatch_tail (h @ dispatch_mid2 @ a @ dispatch_tail) = Some (h @ dispatch_mid2 @ a)"
    using strip_suffix_append [of dispatch_tail "h @ dispatch_mid2 @ a"] by simp
  with lit split show ?thesis
    by (simp add: dispatch_parts_def)
qed

section \<open>Properties of ssrDispatch\<close>

text \<open>
  C1. The text \<open>ssrDispatch\<close> emits carries its three inputs recoverably: when the action
  name has no quote, backslash or line terminator, the browser's reading of the text
  gives back the name as the value of the \<open>name\<close> literal, the handler source as it was
  given, whatever it contains, and the arguments as their \<open>JSON.stringify\<close> text.
\<close>

theorem dispatch_roundtrip:
  assumes "literal_safe n"
  shows "dispatch_parts (ssrDispatch n h args) = Some (n, h, json_str (JArr args))"
  unfolding ssrDispatch_def by (rule dispatch_parts_text [OF assms nl_notin_json])

theorem dispatch_roundtrip_witness:
  "dispatch_parts (ssrDispatch ''fetchPosts'' ''(event, action) => action()'' [JNum 1, JNum 2]) =
     Some (''fetchPosts'', ''(event, action) => action()'', ''[1,2]'')"
proof -
  have "literal_safe ''fetchPosts''" by (simp add: literal_safe_def)
  from dispatch_roundtrip [OF this, of "''(event, action) => action()''" "[JNum 1, JNum 2]"]
  show ?thesis by (simp add: json_int_def dec_digits.simps) code_simp
qed

text \<open>
  C7. The action name is interpolated into the single-quoted literal without escaping: a
  name with a quote ends the literal early, and the rest of the name is read as
  JavaScript statements of the inline handler.
\<close>

theorem dispatch_name_breaks_out:
  assumes "literal_safe a"
  shows "Option.bind (strip_prefix dispatch_head (ssrDispatch (a @ sq # b) h args)) js_sq_literal =
           Some (a, b @ dispatch_mid1 @ h @ dispatch_mid2 @ json_str (JArr args) @ dispatch_tail)"
  using js_sq_literal_plain [OF assms] by (simp add: ssrDispatch_def)

theorem dispatch_name_breaks_out_witness:
  "Option.bind (strip_prefix dispatch_head (ssrDispatch (''x'' @ sq # '';alert(1);//'') ''h'' [])) js_sq_literal =
     Some (''x'', '';alert(1);//'' @ dispatch_mid1 @ ''h'' @ dispatch_mid2 @ ''[]'' @ dispatch_tail)"
proof -
  have "literal_safe ''x''" by (simp add: literal_safe_def)
  from dispatch_name_breaks_out [OF this, of "'';alert(1);//''" "''h''" "[]"] show ?thesis by simp
qed

text \<open>
  C8. \<open>JSON.stringify\<close> turns an \<open>undefined\<close> argument into \<open>null\<close>: the texts for an
  argument list with \<open>undefined\<close> and with \<open>null\<close> in its place are the same, so the
  replayed action cannot receive the \<open>undefined\<close> the handler was given.
\<close>

theorem dispatch_undefined_is_null:
  "ssrDispatch n h (xs @ JUndef # ys) = ssrDispatch n h (xs @ JNull # ys)"
proof -
  have "json_items (xs @ JUndef # ys) = json_items (xs @ JNull # ys)"
    by (induction xs) simp_all
  then show ?thesis by (simp add: ssrDispatch_def)
qed

end
