(* ===== verification/Server.thy ===== *)
theory Server
  imports Example_App Dispatch
begin

text \<open>
  The server side. \<open>ssrDefaultProps\<close> (src/src/control/server.mjs, lines 1--9) builds
  the props the root component is rendered with: the state, an empty actions object,
  the dispatch capability, the renderer obtained by calling \<open>wire()\<close> once, and
  \<open>wire\<close> itself. The server runtime of the spec (section 4.2, its code is not part
  of the sources) renders the root component with these props, \<open>ssrDispatch\<close> as the
  dispatch capability, and hands out the core loop's \<open>accept\<close> with no actions and
  no Next-Action.
\<close>

section \<open>Definitions\<close>

text \<open>
  The props object: \<open>Object.assign(Object.create(null), {...})\<close> has exactly these
  five own properties and no prototype.
\<close>

record ('s, 'p, 'c, 'd, 'r) ssr_props =
  props_state :: 's
  props_actions :: "name \<rightharpoonup> ('p, 'c) action_fn"
  props_dispatch :: 'd
  props_render :: 'r
  props_wire :: "unit \<Rightarrow> 'r"

definition ssrDefaultProps :: "'s \<Rightarrow> 'd \<Rightarrow> (unit \<Rightarrow> 'r) \<Rightarrow> ('s, 'p, 'c, 'd, 'r) ssr_props" where
  "ssrDefaultProps state dispatch wire =
     \<lparr>props_state = state, props_actions = Map.empty, props_dispatch = dispatch,
      props_render = wire (), props_wire = wire\<rparr>"

type_synonym dispatch_fn = "string \<Rightarrow> string \<Rightarrow> jsval list \<Rightarrow> string"

text \<open>
  The server runtime, given the initial state, the root component, \<open>wire\<close> and the
  Accept function: \<open>renderHTMLString\<close> renders the state it is given (the shared state
  object at the time of the call) and \<open>accept\<close> runs the core loop with the actions of
  the server props, which are none, and no Next-Action.
\<close>

record ('s, 'p, 'c, 'h) ssr_runtime =
  renderHTMLString :: "'s \<Rightarrow> 'h"
  ssr_model :: "('s, 'p, 'c) app"

definition SsrApp ::
  "'s \<Rightarrow> (('s, 'p, 'c, dispatch_fn, 'r) ssr_props \<Rightarrow> 'h) \<Rightarrow> (unit \<Rightarrow> 'r) \<Rightarrow>
   ('s \<Rightarrow> 'p \<Rightarrow> 's \<times> err option) \<Rightarrow> ('s, 'p, 'c, 'h) ssr_runtime" where
  "SsrApp state app wire Acc =
     \<lparr>renderHTMLString = (\<lambda>s. app (ssrDefaultProps s ssrDispatch wire)),
      ssr_model = \<lparr>Accept = Acc, Actions = props_actions (ssrDefaultProps state ssrDispatch wire),
                   nextAction = None\<rparr>\<rparr>"

text \<open>
  The README's server usage (src/README.md, lines 111--120): build the runtime with the
  README's Accept, accept the fetched data, render. The shorthand object
  \<open>{ route, query, title, description, posts }\<close> has the five properties even when a
  value is \<open>undefined\<close>. Three steps of fuel are enough for the server's \<open>accept\<close>
  (C10), so the run never runs out of it.
\<close>

definition readme_ssr_usage ::
  "jsval \<Rightarrow> ((jsval, jsval, jsval list, dispatch_fn, 'r) ssr_props \<Rightarrow> 'h) \<Rightarrow> (unit \<Rightarrow> 'r) \<Rightarrow>
   jsval \<Rightarrow> jsval \<Rightarrow> jsval \<Rightarrow> jsval \<Rightarrow> jsval \<Rightarrow> err + 'h" where
  "readme_ssr_usage state appShell wire route query title description posts =
     (let rt = SsrApp state appShell wire Accept_example;
          data = JObj [(''route'', route), (''query'', query), (''title'', title),
                       (''description'', description), (''posts'', posts)]
      in (case loop_accept (ssr_model rt) 3 state data of
            Done m \<Rightarrow> Inr (renderHTMLString rt (model_state m))
          | Failed e m \<Rightarrow> Inl e
          | OutOfFuel m \<Rightarrow> Inl (Thrown ''accept did not return'')))"

text \<open>
  Spec 4.1 reads \<open>accept(proposal)\<close> as invoking the bound Accept function with
  \<open>{state, proposal}\<close>. The core loop's \<open>Accept\<close> field (and README line 38,
  \<open>accept: ({ proposal }) => void\<close>) passes \<open>accept\<close>'s argument itself. This is the
  spec's reading, as an Accept field for the core loop.
\<close>

definition accept_with_state :: "(jsval \<Rightarrow> jsval \<Rightarrow> jsval \<times> err option) \<Rightarrow> jsval \<Rightarrow> jsval \<Rightarrow> jsval \<times> err option" where
  "accept_with_state Acc s p = Acc s (JObj [(''state'', s), (''proposal'', p)])"

section \<open>Lemmas\<close>

lemma ssr_model_SsrApp [simp]:
  "ssr_model (SsrApp st0 app wire Acc) = \<lparr>Accept = Acc, Actions = Map.empty, nextAction = None\<rparr>"
  by (simp add: SsrApp_def ssrDefaultProps_def)

section \<open>Properties of the server runtime\<close>

text \<open>
  The README's server example calls \<open>accept({ route, query, ... })\<close> without the
  \<open>{proposal}\<close> wrapper that the README's Accept destructures: on the server runtime the
  read of \<open>proposal.route\<close> throws a \<open>TypeError\<close>, the state is left as it was and the
  error reaches the caller.
\<close>

lemma ssr_unwrapped_accept_fails:
  assumes "js_prop akvs ''proposal'' = JUndef"
  shows "loop_accept (ssr_model (SsrApp st0 app wire Accept_example)) (Suc n) st (JObj akvs) =
           Failed (TypeError ''Cannot read properties of undefined (reading route)'')
             \<lparr>model_state = st, model_pending = [], model_trace = [EvAccept (JObj akvs)]\<rparr>"
proof -
  have "Accept (ssr_model (SsrApp st0 app wire Accept_example)) st (JObj akvs) =
          (st, Some (TypeError ''Cannot read properties of undefined (reading route)''))"
    using assms by (simp add: Accept_example_unwrapped)
  then show ?thesis by (rule accept_throw_stops)
qed

lemma accept_with_state_wrapped:
  "accept_with_state Accept_example s (JObj [(''proposal'', JObj [(''value'', v)])]) = (s, None)"
  by (simp add: accept_with_state_def Accept_example_def js_prop_def)

text \<open>
  C9. The README's two uses of \<open>accept\<close> assume different conventions, so no reading of
  \<open>accept\<close> makes both work. Passing \<open>accept\<close>'s argument to Accept, as README line 38
  and the README's \<open>exampleAction\<close> (which proposes \<open>{proposal: {value}}\<close>) assume, the
  README's server usage (line 118, \<open>accept({ route, query, ... })\<close>, no \<open>proposal\<close> key)
  throws a TypeError whatever the data. Invoking Accept with \<open>{state, proposal}\<close>, as
  spec 4.1 words it, the server usage would work, but then the README's
  \<open>exampleAction({value})\<close> never sets \<open>state.bar\<close>: its proposal reaches Accept one level
  too deep (Scenario A of spec 8 fails).
\<close>

theorem readme_accept_conventions_conflict:
  assumes "\<not> js_truthy (js_prop kvs ''foo'')" and "route \<noteq> JUndef"
  shows "readme_ssr_usage state appShell wire route query title description posts =
           Inl (TypeError ''Cannot read properties of undefined (reading route)'') \<and>
         loop_action (example_app\<lparr>Accept := accept_with_state Accept_example\<rparr>) 4 (JObj kvs)
             ''exampleAction'' [JObj [(''value'', JStr s)]] =
           Done \<lparr>model_state = JObj kvs, model_pending = [],
                 model_trace = [EvCall ''exampleAction'' [JObj [(''value'', JStr s)]],
                                EvAccept (JObj [(''proposal'', JObj [(''value'', JStr s)])]), EvNext]\<rparr> \<and>
         loop_accept (ssr_model (SsrApp (JObj kvs) appShell wire (accept_with_state Accept_example))) 3 (JObj kvs)
             (JObj [(''route'', route), (''query'', query), (''title'', title), (''description'', description), (''posts'', posts)]) =
           Done \<lparr>model_state = JObj (AList.update ''route'' route kvs), model_pending = [],
                 model_trace = [EvAccept (JObj [(''route'', route), (''query'', query), (''title'', title), (''description'', description), (''posts'', posts)])]\<rparr>"
proof (intro conjI)
  let ?data = "[(''route'', route), (''query'', query), (''title'', title),
                (''description'', description), (''posts'', posts)]"
  have "js_prop ?data ''proposal'' = JUndef" by (simp add: js_prop_def)
  from ssr_unwrapped_accept_fails [OF this, of state appShell wire 2 state]
  show "readme_ssr_usage state appShell wire route query title description posts =
          Inl (TypeError ''Cannot read properties of undefined (reading route)'')"
    by (simp add: readme_ssr_usage_def numeral_3_eq_3)
next
  show "loop_action (example_app\<lparr>Accept := accept_with_state Accept_example\<rparr>) 4 (JObj kvs)
             ''exampleAction'' [JObj [(''value'', JStr s)]] =
           Done \<lparr>model_state = JObj kvs, model_pending = [],
                 model_trace = [EvCall ''exampleAction'' [JObj [(''value'', JStr s)]],
                                EvAccept (JObj [(''proposal'', JObj [(''value'', JStr s)])]), EvNext]\<rparr>"
    using assms
    by (simp add: loop_action_def start_def numeral_eq_Suc loop_simps example_app_def
        Actions_example_def exampleAction_value returned_tasks_def accept_with_state_wrapped
        nextAction_example_def)
next
  have "accept_with_state Accept_example (JObj kvs) (JObj [(''route'', route), (''query'', query), (''title'', title), (''description'', description), (''posts'', posts)]) = (JObj (AList.update ''route'' route kvs), None)"
    using assms(2) by (simp add: accept_with_state_def Accept_example_def js_prop_def)
  then show "loop_accept (ssr_model (SsrApp (JObj kvs) appShell wire (accept_with_state Accept_example))) 3 (JObj kvs)
             (JObj [(''route'', route), (''query'', query), (''title'', title), (''description'', description), (''posts'', posts)]) =
           Done \<lparr>model_state = JObj (AList.update ''route'' route kvs), model_pending = [],
                 model_trace = [EvAccept (JObj [(''route'', route), (''query'', query), (''title'', title), (''description'', description), (''posts'', posts)])]\<rparr>"
    using server_accept_terminates [of "ssr_model (SsrApp (JObj kvs) appShell wire (accept_with_state Accept_example))"
      "JObj kvs" "JObj [(''route'', route), (''query'', query), (''title'', title), (''description'', description), (''posts'', posts)]"] by simp
qed

theorem readme_accept_conventions_conflict_witness:
  "\<not> js_truthy (js_prop [(''foo'', JBool False)] ''foo'') \<and> JStr ''/'' \<noteq> JUndef \<and>
   readme_ssr_usage (JObj [(''foo'', JBool False)]) (\<lambda>props. ''<main></main>'') (\<lambda>u. ())
       (JStr ''/'') (JObj []) (JStr ''t'') (JStr ''d'') (JArr []) =
     Inl (TypeError ''Cannot read properties of undefined (reading route)'') \<and>
   loop_action (example_app\<lparr>Accept := accept_with_state Accept_example\<rparr>) 4 (JObj [(''foo'', JBool False)])
       ''exampleAction'' [JObj [(''value'', JStr ''abc'')]] =
     Done \<lparr>model_state = JObj [(''foo'', JBool False)], model_pending = [],
           model_trace = [EvCall ''exampleAction'' [JObj [(''value'', JStr ''abc'')]],
                          EvAccept (JObj [(''proposal'', JObj [(''value'', JStr ''abc'')])]), EvNext]\<rparr> \<and>
   loop_accept (ssr_model (SsrApp (JObj [(''foo'', JBool False)])
       (\<lambda>props :: (jsval, jsval, jsval list, dispatch_fn, unit) ssr_props. ''<main></main>'') (\<lambda>u. ())
       (accept_with_state Accept_example))) 3 (JObj [(''foo'', JBool False)]) (JObj [(''route'', JStr ''/''), (''query'', JObj []), (''title'', JStr ''t''), (''description'', JStr ''d''), (''posts'', JArr [])]) =
     Done \<lparr>model_state = JObj [(''foo'', JBool False), (''route'', JStr ''/'')], model_pending = [],
           model_trace = [EvAccept (JObj [(''route'', JStr ''/''), (''query'', JObj []), (''title'', JStr ''t''), (''description'', JStr ''d''), (''posts'', JArr [])])]\<rparr>"
proof -
  have h: "\<not> js_truthy (js_prop [(''foo'', JBool False)] ''foo'')" by (simp add: js_prop_def)
  have r: "JStr ''/'' \<noteq> JUndef" by simp
  from h r readme_accept_conventions_conflict [OF h r, of "JObj [(''foo'', JBool False)]" "\<lambda>props. ''<main></main>''"
      "\<lambda>u. ()" "JObj []" "JStr ''t''" "JStr ''d''" "JArr []" "''abc''"]
  show ?thesis by simp
qed



end
