(* ===== verification/Replay.thy ===== *)
theory Replay
  imports Core_Loop JsonParse Dispatch
begin

text \<open>
  The hydration dispatch bridge (spec 4.4). While the server's markup is live and the
  client runtime is not, an element's inline handler, the text \<open>ssrDispatch\<close> wrote,
  pushes a replay entry \<open>{name, handler, args, target, event}\<close> to the global queue
  \<open>window.dispatcher.toReplay\<close>. When the client runtime has its actions, it drains the
  queue in FIFO order: for each entry it calls \<open>handler(event, action)\<close>, where \<open>action\<close>
  runs the action \<open>name\<close> with \<open>target\<close> as \<open>this\<close> on the recorded arguments, through the core loop;
  pushes may still arrive while the drain runs. The dispatcher code is not among the
  sources: the queue and the drain are modelled from the spec.

  The inline handler's effect is modelled by reading its text (\<open>dispatch_parts\<close>,
  \<open>JSON_parse\<close>); the handler function itself, which the text evaluates, is abstracted
  by what it does with \<open>action\<close>: it calls it a number of times and returns, or throws.
  This is the spec's \<open>handler(event, action)\<close> convention; the README's dispatch
  example (lines 217--229) passes a factory \<open>(...args) => function(event, action)\<close>,
  which assumes a client calling \<open>handler(...args)(event, action)\<close> instead, so that
  example is not modelled.
  An entry whose action name is not a key of the client's actions is a configuration
  error that ends the drain (it fails loudly rather than being skipped); the name is
  resolved when the entry is replayed, before its handler runs.
\<close>

section \<open>Data\<close>

datatype handler = CallsAction nat | Throws string

record replay_entry =
  re_name :: name
  re_handler :: handler
  re_args :: "jsval list"
  re_target :: nat
  re_event :: nat

text \<open>
  A replayed action is called with the recorded arguments; the target node is its
  \<open>this\<close>, which the arrow functions and methods of the README's actions do not read, so
  the model's actions take the arguments only (as the client's wrapped actions do).
\<close>

type_synonym ('s, 'p) client_app = "('s, 'p, jsval list) app"
type_synonym ('s, 'p) client_model = "('s, 'p, jsval list) loop_state"

text \<open>
  The lifecycle of the queue: clicks are recorded while the page hydrates and during the
  drain; the drain ends with the queue empty (\<open>Hydrated\<close>) or with the error of the
  entry that failed (\<open>Aborted\<close>).
\<close>

datatype phase = Hydrating | Draining | Hydrated | Aborted err

record ('s, 'p) bridge =
  toReplay :: "replay_entry list"
  br_phase :: phase
  br_replayed :: "replay_entry list"
  br_pushed :: "replay_entry list"
  br_model :: "('s, 'p) client_model"

section \<open>Recording a click\<close>

text \<open>
  What the inline handler does when clicked: its text is read as the browser reads it
  (the name literal, the handler source, the arguments' JSON), the handler source is
  evaluated by \<open>eval_handler\<close>, and the entry is built with the clicked node and the event.
  A text whose arguments are not an array is refused here; \<open>ssrDispatch\<close> never writes one.
\<close>

definition inline_click ::
  "(string \<Rightarrow> handler) \<Rightarrow> string \<Rightarrow> nat \<Rightarrow> nat \<Rightarrow> err + replay_entry" where
  "inline_click eval_handler s target event =
     (case dispatch_parts s of
        None \<Rightarrow> Inl (SyntaxError ''Invalid or unexpected token'')
      | Some (n, h, a) \<Rightarrow>
          (case JSON_parse a of
             Inl e \<Rightarrow> Inl e
           | Inr (JArr args) \<Rightarrow>
               Inr \<lparr>re_name = n, re_handler = eval_handler h, re_args = args,
                    re_target = target, re_event = event\<rparr>
           | Inr v \<Rightarrow> Inl (TypeError ''args is not iterable'')))"

definition push_entry :: "replay_entry \<Rightarrow> ('s, 'p) bridge \<Rightarrow> ('s, 'p) bridge" where
  "push_entry e b = b\<lparr>toReplay := toReplay b @ [e], br_pushed := br_pushed b @ [e]\<rparr>"

section \<open>Replaying one entry\<close>

text \<open>\<open>k\<close> calls of \<open>action()\<close>, each a run of the core loop from the action call.\<close>

fun replay_calls ::
  "('s, 'p) client_app \<Rightarrow> nat \<Rightarrow> name \<Rightarrow> jsval list \<Rightarrow> nat \<Rightarrow> ('s, 'p) client_model \<Rightarrow>
   ('s, 'p) client_model outcome" where
  "replay_calls A fuel n c 0 m = Done m"
| "replay_calls A fuel n c (Suc k) m =
     (case run A fuel (m\<lparr>model_pending := [TCall n c]\<rparr>) of
        Done m' \<Rightarrow> replay_calls A fuel n c k m'
      | r \<Rightarrow> r)"

definition replay_one ::
  "('s, 'p) client_app \<Rightarrow> nat \<Rightarrow> replay_entry \<Rightarrow> ('s, 'p) client_model \<Rightarrow> ('s, 'p) client_model outcome" where
  "replay_one A fuel e m =
     (case Actions A (re_name e) of
        None \<Rightarrow> Failed (UnknownAction (re_name e)) m
      | Some f \<Rightarrow>
          (case re_handler e of
             Throws msg \<Rightarrow> Failed (Thrown msg) m
           | CallsAction k \<Rightarrow> replay_calls A fuel (re_name e) (re_args e) k m))"

section \<open>The drain\<close>

text \<open>The drain of a queue that no click extends meanwhile, entry by entry.\<close>

fun drain ::
  "('s, 'p) client_app \<Rightarrow> nat \<Rightarrow> replay_entry list \<Rightarrow> ('s, 'p) client_model \<Rightarrow>
   ('s, 'p) client_model outcome" where
  "drain A fuel [] m = Done m"
| "drain A fuel (e # q) m =
     (case replay_one A fuel e m of
        Done m' \<Rightarrow> drain A fuel q m'
      | r \<Rightarrow> r)"

text \<open>
  The bridge with clicks and drain steps interleaved: a push at any time before the
  drain ends, the start of the drain, the replay of the oldest entry (removed after its
  handler ran, successfully or not), and the end of the drain on an empty queue.
\<close>

inductive bridge_step ::
  "('s, 'p) client_app \<Rightarrow> nat \<Rightarrow> ('s, 'p) bridge \<Rightarrow> ('s, 'p) bridge \<Rightarrow> bool"
  for A :: "('s, 'p) client_app" and fuel :: nat where
  push: "br_phase b \<in> {Hydrating, Draining} \<Longrightarrow> bridge_step A fuel b (push_entry e b)"
| begin_drain: "br_phase b = Hydrating \<Longrightarrow> bridge_step A fuel b (b\<lparr>br_phase := Draining\<rparr>)"
| replay_ok: "br_phase b = Draining \<Longrightarrow> toReplay b = e # q \<Longrightarrow> replay_one A fuel e (br_model b) = Done m \<Longrightarrow>
    bridge_step A fuel b (b\<lparr>toReplay := q, br_replayed := br_replayed b @ [e], br_model := m\<rparr>)"
| replay_fail: "br_phase b = Draining \<Longrightarrow> toReplay b = e # q \<Longrightarrow> replay_one A fuel e (br_model b) = Failed err m \<Longrightarrow>
    bridge_step A fuel b (b\<lparr>toReplay := q, br_replayed := br_replayed b @ [e], br_model := m,
                             br_phase := Aborted err\<rparr>)"
| finish: "br_phase b = Draining \<Longrightarrow> toReplay b = [] \<Longrightarrow> bridge_step A fuel b (b\<lparr>br_phase := Hydrated\<rparr>)"

definition bridge_init :: "('s, 'p) client_model \<Rightarrow> ('s, 'p) bridge" where
  "bridge_init m = \<lparr>toReplay = [], br_phase = Hydrating, br_replayed = [], br_pushed = [], br_model = m\<rparr>"

text \<open>
  The queue's invariant: the entries replayed so far followed by the queue are the
  entries pushed, in push order; nothing is replayed before the drain starts, and the
  queue is empty once it ends.
\<close>

definition bridge_inv :: "('s, 'p) bridge \<Rightarrow> bool" where
  "bridge_inv b \<longleftrightarrow>
     br_replayed b @ toReplay b = br_pushed b \<and>
     (br_phase b = Hydrating \<longrightarrow> br_replayed b = []) \<and>
     (br_phase b = Hydrated \<longrightarrow> toReplay b = [])"

text \<open>
  The Accept-fold invariant of the core loop (\<open>run_fold\<close>): the state is the initial
  state with the accepted proposals applied in order. The replay keeps it.
\<close>

definition model_inv :: "('s, 'p, 'c) app \<Rightarrow> 's \<Rightarrow> ('s, 'p, 'c) loop_state \<Rightarrow> bool" where
  "model_inv A s0 m \<longleftrightarrow> model_state m = accept_fold A s0 (accepted (model_trace m))"

section \<open>Lemmas\<close>


lemma push_entry_fields [simp]:
  "toReplay (push_entry e b) = toReplay b @ [e]" "br_pushed (push_entry e b) = br_pushed b @ [e]"
  "br_replayed (push_entry e b) = br_replayed b" "br_phase (push_entry e b) = br_phase b"
  "br_model (push_entry e b) = br_model b"
  by (simp_all add: push_entry_def)

lemma bridge_step_inv:
  assumes "bridge_step A fuel b b'" and "bridge_inv b"
  shows "bridge_inv b'"
  using assms by (induction rule: bridge_step.induct) (auto simp: bridge_inv_def)

lemma bridge_reachable_inv:
  assumes "(bridge_step A fuel)\<^sup>*\<^sup>* (bridge_init m) b"
  shows "bridge_inv b"
  using assms
proof (induction rule: rtranclp_induct)
  case base
  then show ?case by (simp add: bridge_init_def bridge_inv_def)
next
  case (step y z)
  show ?case by (rule bridge_step_inv [OF step.hyps(2) step.IH])
qed

text \<open>
  C14. Replay entries are replayed in the order they were pushed, each exactly once, even
  with clicks arriving during the drain: at every point of every interleaving the entries
  replayed so far followed by the queue are the entries pushed, and once the drain has
  ended every pushed entry has been replayed.
\<close>

theorem replay_fifo:
  assumes "(bridge_step A fuel)\<^sup>*\<^sup>* (bridge_init m) b"
  shows "br_replayed b @ toReplay b = br_pushed b \<and> (br_phase b = Hydrated \<longrightarrow> br_replayed b = br_pushed b)"
  using bridge_reachable_inv [OF assms] by (auto simp: bridge_inv_def)

theorem replay_fifo_witness:
  "(bridge_step (\<lparr>Accept = (\<lambda>s p. (s, None)), Actions = Map.empty, nextAction = None\<rparr> :: (jsval, jsval) client_app) 0)\<^sup>*\<^sup>* (bridge_init \<lparr>model_state = JNull, model_pending = [], model_trace = []\<rparr>)
     (push_entry \<lparr>re_name = ''a'', re_handler = CallsAction 1, re_args = [], re_target = 0, re_event = 0\<rparr> (bridge_init \<lparr>model_state = JNull, model_pending = [], model_trace = []\<rparr>)) \<and>
   br_replayed (push_entry \<lparr>re_name = ''a'', re_handler = CallsAction 1, re_args = [], re_target = 0, re_event = 0\<rparr> (bridge_init \<lparr>model_state = JNull, model_pending = [], model_trace = []\<rparr>)) @ toReplay (push_entry \<lparr>re_name = ''a'', re_handler = CallsAction 1, re_args = [], re_target = 0, re_event = 0\<rparr> (bridge_init \<lparr>model_state = JNull, model_pending = [], model_trace = []\<rparr>)) =
     br_pushed (push_entry \<lparr>re_name = ''a'', re_handler = CallsAction 1, re_args = [], re_target = 0, re_event = 0\<rparr> (bridge_init \<lparr>model_state = JNull, model_pending = [], model_trace = []\<rparr>))"
proof -
  have "bridge_step (\<lparr>Accept = (\<lambda>s p. (s, None)), Actions = Map.empty, nextAction = None\<rparr> :: (jsval, jsval) client_app) 0 (bridge_init \<lparr>model_state = JNull, model_pending = [], model_trace = []\<rparr>) (push_entry \<lparr>re_name = ''a'', re_handler = CallsAction 1, re_args = [], re_target = 0, re_event = 0\<rparr> (bridge_init \<lparr>model_state = JNull, model_pending = [], model_trace = []\<rparr>))"
    by (rule push) (simp add: bridge_init_def)
  then have r: "(bridge_step (\<lparr>Accept = (\<lambda>s p. (s, None)), Actions = Map.empty, nextAction = None\<rparr> :: (jsval, jsval) client_app) 0)\<^sup>*\<^sup>* (bridge_init \<lparr>model_state = JNull, model_pending = [], model_trace = []\<rparr>)
     (push_entry \<lparr>re_name = ''a'', re_handler = CallsAction 1, re_args = [], re_target = 0, re_event = 0\<rparr> (bridge_init \<lparr>model_state = JNull, model_pending = [], model_trace = []\<rparr>))" by (rule r_into_rtranclp)
  from r replay_fifo [OF r] show ?thesis by (simp add: bridge_init_def)
qed

lemma drain_Cons_Done:
  "replay_one A fuel e m = Done m' \<Longrightarrow> drain A fuel (e # q) m = drain A fuel q m'"
  by simp

lemma drain_refines:
  assumes "drain A fuel q (br_model b) = Done m'" and "br_phase b = Draining" and "toReplay b = q"
  shows "(bridge_step A fuel)\<^sup>*\<^sup>* b
           (b\<lparr>toReplay := [], br_replayed := br_replayed b @ q, br_model := m', br_phase := Hydrated\<rparr>)"
  using assms
proof (induction q arbitrary: b)
  case Nil
  then have "bridge_step A fuel b (b\<lparr>br_phase := Hydrated\<rparr>)" by (intro finish)
  moreover have "b\<lparr>toReplay := [], br_replayed := br_replayed b @ [], br_model := m', br_phase := Hydrated\<rparr> =
      b\<lparr>br_phase := Hydrated\<rparr>"
    using Nil by (cases b) simp
  ultimately show ?case by simp
next
  case (Cons e q)
  then obtain m where m: "replay_one A fuel e (br_model b) = Done m" and d: "drain A fuel q m = Done m'"
    by (auto split: outcome.splits)
  let ?b1 = "b\<lparr>toReplay := q, br_replayed := br_replayed b @ [e], br_model := m\<rparr>"
  have "bridge_step A fuel b ?b1" using Cons.prems(2,3) m by (rule replay_ok)
  moreover have "(bridge_step A fuel)\<^sup>*\<^sup>* ?b1
      (?b1\<lparr>toReplay := [], br_replayed := br_replayed ?b1 @ q, br_model := m', br_phase := Hydrated\<rparr>)"
    using Cons.IH [of ?b1] d Cons.prems(2) by simp
  ultimately show ?case by simp
qed


lemma bridge_Hydrated_final: "br_phase b = Hydrated \<Longrightarrow> \<not> bridge_step A fuel b b'"
  by (auto elim: bridge_step.cases)

text \<open>
  C16. An entry naming an action the client does not have fails loudly: the only drain
  step from it ends the drain with \<open>UnknownAction\<close> and the state untouched; it is never
  skipped (a click may still be recorded meanwhile).
\<close>

theorem replay_unknown_action_fails:
  assumes "br_phase b = Draining" and "toReplay b = e # q" and "Actions A (re_name e) = None"
    and "bridge_step A fuel b b'"
  shows "(\<exists>e'. b' = push_entry e' b) \<or>
         (br_phase b' = Aborted (UnknownAction (re_name e)) \<and> br_model b' = br_model b \<and> toReplay b' = q)"
  using assms(4,1,2,3) by (cases rule: bridge_step.cases) (auto simp: replay_one_def)

theorem replay_unknown_action_fails_witness:
  "bridge_step (\<lparr>Accept = (\<lambda>s p. (s, None)), Actions = Map.empty, nextAction = None\<rparr> :: (jsval, jsval) client_app) 0
     \<lparr>toReplay = [\<lparr>re_name = ''a'', re_handler = CallsAction 1, re_args = [], re_target = 0, re_event = 0\<rparr>], br_phase = Draining, br_replayed = [], br_pushed = [\<lparr>re_name = ''a'', re_handler = CallsAction 1, re_args = [], re_target = 0, re_event = 0\<rparr>], br_model = \<lparr>model_state = JNull, model_pending = [], model_trace = []\<rparr>\<rparr>
     \<lparr>toReplay = [], br_phase = Aborted (UnknownAction ''a''), br_replayed = [\<lparr>re_name = ''a'', re_handler = CallsAction 1, re_args = [], re_target = 0, re_event = 0\<rparr>], br_pushed = [\<lparr>re_name = ''a'', re_handler = CallsAction 1, re_args = [], re_target = 0, re_event = 0\<rparr>], br_model = \<lparr>model_state = JNull, model_pending = [], model_trace = []\<rparr>\<rparr> \<and>
   br_phase (\<lparr>toReplay = [], br_phase = Aborted (UnknownAction ''a''), br_replayed = [\<lparr>re_name = ''a'', re_handler = CallsAction 1, re_args = [], re_target = 0, re_event = 0\<rparr>], br_pushed = [\<lparr>re_name = ''a'', re_handler = CallsAction 1, re_args = [], re_target = 0, re_event = 0\<rparr>], br_model = \<lparr>model_state = JNull, model_pending = [], model_trace = []\<rparr>\<rparr> :: (jsval, jsval) bridge) = Aborted (UnknownAction ''a'')"
proof -
  have st: "bridge_step (\<lparr>Accept = (\<lambda>s p. (s, None)), Actions = Map.empty, nextAction = None\<rparr> :: (jsval, jsval) client_app) 0 \<lparr>toReplay = [\<lparr>re_name = ''a'', re_handler = CallsAction 1, re_args = [], re_target = 0, re_event = 0\<rparr>], br_phase = Draining, br_replayed = [], br_pushed = [\<lparr>re_name = ''a'', re_handler = CallsAction 1, re_args = [], re_target = 0, re_event = 0\<rparr>], br_model = \<lparr>model_state = JNull, model_pending = [], model_trace = []\<rparr>\<rparr> \<lparr>toReplay = [], br_phase = Aborted (UnknownAction ''a''), br_replayed = [\<lparr>re_name = ''a'', re_handler = CallsAction 1, re_args = [], re_target = 0, re_event = 0\<rparr>], br_pushed = [\<lparr>re_name = ''a'', re_handler = CallsAction 1, re_args = [], re_target = 0, re_event = 0\<rparr>], br_model = \<lparr>model_state = JNull, model_pending = [], model_trace = []\<rparr>\<rparr>"
    using replay_fail [of "\<lparr>toReplay = [\<lparr>re_name = ''a'', re_handler = CallsAction 1, re_args = [], re_target = 0, re_event = 0\<rparr>], br_phase = Draining, br_replayed = [], br_pushed = [\<lparr>re_name = ''a'', re_handler = CallsAction 1, re_args = [], re_target = 0, re_event = 0\<rparr>], br_model = \<lparr>model_state = JNull, model_pending = [], model_trace = []\<rparr>\<rparr>" "\<lparr>re_name = ''a'', re_handler = CallsAction 1, re_args = [], re_target = 0, re_event = 0\<rparr>" "[]" "\<lparr>Accept = (\<lambda>s p. (s, None)), Actions = Map.empty, nextAction = None\<rparr> :: (jsval, jsval) client_app" 0 "UnknownAction ''a''" "\<lparr>model_state = JNull, model_pending = [], model_trace = []\<rparr>"]
    by (simp add: replay_one_def)
  have "(\<exists>e'. (\<lparr>toReplay = [], br_phase = Aborted (UnknownAction ''a''), br_replayed = [\<lparr>re_name = ''a'', re_handler = CallsAction 1, re_args = [], re_target = 0, re_event = 0\<rparr>], br_pushed = [\<lparr>re_name = ''a'', re_handler = CallsAction 1, re_args = [], re_target = 0, re_event = 0\<rparr>], br_model = \<lparr>model_state = JNull, model_pending = [], model_trace = []\<rparr>\<rparr> :: (jsval, jsval) bridge) = push_entry e' \<lparr>toReplay = [\<lparr>re_name = ''a'', re_handler = CallsAction 1, re_args = [], re_target = 0, re_event = 0\<rparr>], br_phase = Draining, br_replayed = [], br_pushed = [\<lparr>re_name = ''a'', re_handler = CallsAction 1, re_args = [], re_target = 0, re_event = 0\<rparr>], br_model = \<lparr>model_state = JNull, model_pending = [], model_trace = []\<rparr>\<rparr>) \<or>
        (br_phase (\<lparr>toReplay = [], br_phase = Aborted (UnknownAction ''a''), br_replayed = [\<lparr>re_name = ''a'', re_handler = CallsAction 1, re_args = [], re_target = 0, re_event = 0\<rparr>], br_pushed = [\<lparr>re_name = ''a'', re_handler = CallsAction 1, re_args = [], re_target = 0, re_event = 0\<rparr>], br_model = \<lparr>model_state = JNull, model_pending = [], model_trace = []\<rparr>\<rparr> :: (jsval, jsval) bridge) = Aborted (UnknownAction (re_name \<lparr>re_name = ''a'', re_handler = CallsAction 1, re_args = [], re_target = 0, re_event = 0\<rparr>)) \<and>
         br_model (\<lparr>toReplay = [], br_phase = Aborted (UnknownAction ''a''), br_replayed = [\<lparr>re_name = ''a'', re_handler = CallsAction 1, re_args = [], re_target = 0, re_event = 0\<rparr>], br_pushed = [\<lparr>re_name = ''a'', re_handler = CallsAction 1, re_args = [], re_target = 0, re_event = 0\<rparr>], br_model = \<lparr>model_state = JNull, model_pending = [], model_trace = []\<rparr>\<rparr> :: (jsval, jsval) bridge) = br_model (\<lparr>toReplay = [\<lparr>re_name = ''a'', re_handler = CallsAction 1, re_args = [], re_target = 0, re_event = 0\<rparr>], br_phase = Draining, br_replayed = [], br_pushed = [\<lparr>re_name = ''a'', re_handler = CallsAction 1, re_args = [], re_target = 0, re_event = 0\<rparr>], br_model = \<lparr>model_state = JNull, model_pending = [], model_trace = []\<rparr>\<rparr> :: (jsval, jsval) bridge) \<and>
         toReplay (\<lparr>toReplay = [], br_phase = Aborted (UnknownAction ''a''), br_replayed = [\<lparr>re_name = ''a'', re_handler = CallsAction 1, re_args = [], re_target = 0, re_event = 0\<rparr>], br_pushed = [\<lparr>re_name = ''a'', re_handler = CallsAction 1, re_args = [], re_target = 0, re_event = 0\<rparr>], br_model = \<lparr>model_state = JNull, model_pending = [], model_trace = []\<rparr>\<rparr> :: (jsval, jsval) bridge) = [])"
    by (rule replay_unknown_action_fails [OF _ _ _ st]) simp_all
  with st show ?thesis by simp
qed

text \<open>
  C17. Draining an empty queue is a no-op (spec 8, idempotence): its only step, besides a
  click being recorded, ends the drain and changes nothing else, with no error.
\<close>

theorem drain_empty_noop:
  assumes "br_phase b = Draining" and "toReplay b = []" and "bridge_step A fuel b b'"
  shows "(\<exists>e. b' = push_entry e b) \<or> b' = b\<lparr>br_phase := Hydrated\<rparr>"
  using assms(3,1,2) by (cases rule: bridge_step.cases) auto

theorem drain_empty_noop_witness:
  "bridge_step (\<lparr>Accept = (\<lambda>s p. (s, None)), Actions = Map.empty, nextAction = None\<rparr> :: (jsval, jsval) client_app) 0 \<lparr>toReplay = [], br_phase = Draining, br_replayed = [], br_pushed = [], br_model = \<lparr>model_state = JNull, model_pending = [], model_trace = []\<rparr>\<rparr> \<lparr>toReplay = [], br_phase = Hydrated, br_replayed = [], br_pushed = [], br_model = \<lparr>model_state = JNull, model_pending = [], model_trace = []\<rparr>\<rparr> \<and>
   (\<lparr>toReplay = [], br_phase = Hydrated, br_replayed = [], br_pushed = [], br_model = \<lparr>model_state = JNull, model_pending = [], model_trace = []\<rparr>\<rparr> :: (jsval, jsval) bridge) = (\<lparr>toReplay = [], br_phase = Draining, br_replayed = [], br_pushed = [], br_model = \<lparr>model_state = JNull, model_pending = [], model_trace = []\<rparr>\<rparr> :: (jsval, jsval) bridge)\<lparr>br_phase := Hydrated\<rparr>"
proof -
  have st: "bridge_step (\<lparr>Accept = (\<lambda>s p. (s, None)), Actions = Map.empty, nextAction = None\<rparr> :: (jsval, jsval) client_app) 0 \<lparr>toReplay = [], br_phase = Draining, br_replayed = [], br_pushed = [], br_model = \<lparr>model_state = JNull, model_pending = [], model_trace = []\<rparr>\<rparr> ((\<lparr>toReplay = [], br_phase = Draining, br_replayed = [], br_pushed = [], br_model = \<lparr>model_state = JNull, model_pending = [], model_trace = []\<rparr>\<rparr> :: (jsval, jsval) bridge)\<lparr>br_phase := Hydrated\<rparr>)"
    by (rule finish) simp_all
  have "(\<exists>e. (\<lparr>toReplay = [], br_phase = Draining, br_replayed = [], br_pushed = [], br_model = \<lparr>model_state = JNull, model_pending = [], model_trace = []\<rparr>\<rparr> :: (jsval, jsval) bridge)\<lparr>br_phase := Hydrated\<rparr> = push_entry e \<lparr>toReplay = [], br_phase = Draining, br_replayed = [], br_pushed = [], br_model = \<lparr>model_state = JNull, model_pending = [], model_trace = []\<rparr>\<rparr>) \<or>
        (\<lparr>toReplay = [], br_phase = Draining, br_replayed = [], br_pushed = [], br_model = \<lparr>model_state = JNull, model_pending = [], model_trace = []\<rparr>\<rparr> :: (jsval, jsval) bridge)\<lparr>br_phase := Hydrated\<rparr> = (\<lparr>toReplay = [], br_phase = Draining, br_replayed = [], br_pushed = [], br_model = \<lparr>model_state = JNull, model_pending = [], model_trace = []\<rparr>\<rparr> :: (jsval, jsval) bridge)\<lparr>br_phase := Hydrated\<rparr>"
    by (rule drain_empty_noop [OF _ _ st]) simp_all
  with st show ?thesis by simp
qed

lemma run_model_inv: "model_inv A s0 m \<Longrightarrow> model_inv A s0 (outcome_state (run A n m))"
  unfolding model_inv_def by (rule run_fold)

lemma replay_calls_inv:
  "model_inv A s0 m \<Longrightarrow> model_inv A s0 (outcome_state (replay_calls A fuel n c k m))"
proof (induction k arbitrary: m)
  case 0
  then show ?case by simp
next
  case (Suc k)
  have "model_inv A s0 (m\<lparr>model_pending := [TCall n c]\<rparr>)" using Suc.prems by (simp add: model_inv_def)
  then have r: "model_inv A s0 (outcome_state (run A fuel (m\<lparr>model_pending := [TCall n c]\<rparr>)))"
    by (rule run_model_inv)
  show ?case
  proof (cases "run A fuel (m\<lparr>model_pending := [TCall n c]\<rparr>)")
    case (Done m')
    with r Suc.IH [of m'] show ?thesis by simp
  qed (use r in simp_all)
qed

lemma replay_one_inv: "model_inv A s0 m \<Longrightarrow> model_inv A s0 (outcome_state (replay_one A fuel e m))"
  by (simp add: replay_one_def replay_calls_inv split: option.splits handler.splits)

lemma drain_inv: "model_inv A s0 m \<Longrightarrow> model_inv A s0 (outcome_state (drain A fuel q m))"
proof (induction q arbitrary: m)
  case Nil
  then show ?case by simp
next
  case (Cons e q)
  have r: "model_inv A s0 (outcome_state (replay_one A fuel e m))" using Cons.prems by (rule replay_one_inv)
  show ?case
  proof (cases "replay_one A fuel e m")
    case (Done m')
    with r Cons.IH [of m'] show ?thesis by simp
  qed (use r in simp_all)
qed

lemma drain_append:
  "drain A fuel (q1 @ q2) m = (case drain A fuel q1 m of Done m' \<Rightarrow> drain A fuel q2 m' | r \<Rightarrow> r)"
  by (induction q1 arbitrary: m) (simp_all split: outcome.splits)
lemma inline_click_ssrDispatch:
  assumes "literal_safe n" and "list_all json_clean args"
  shows "inline_click ev (ssrDispatch n h args) t e =
           Inr \<lparr>re_name = n, re_handler = ev h, re_args = args, re_target = t, re_event = e\<rparr>"
proof -
  have "dispatch_parts (ssrDispatch n h args) = Some (n, h, json_str (JArr args))"
    unfolding ssrDispatch_def by (rule dispatch_parts_text [OF assms(1) nl_notin_json])
  moreover have "JSON_parse (json_str (JArr args)) = Inr (JArr args)"
    by (rule JSON_parse_stringify) (simp add: assms(2))
  ultimately show ?thesis by (simp add: inline_click_def del: json_str.simps)
qed

end
