(* ===== verification/Client.thy ===== *)
theory Client
  imports Replay Server
begin

text \<open>
  The client runtime of spec 4.3 and the state the server embeds for it (spec 6). Its
  code is not among the sources; it is modelled from the spec. \<open>ClientApp\<close> restores
  the state (the \<open>state\<close> option verbatim when given, otherwise \<open>JSON.parse\<close> of the
  embedded payload), builds the core loop on it, renders (the renderer is opaque and
  writes no state, so the render step is left out), and drains the replay queue as it
  is when the drain starts. Any failure rejects the construction: the result is the
  error alone and no half-built client is handed out.
\<close>

section \<open>Definitions\<close>

text \<open>The server's embedding of its state in the page: the state's JSON text.\<close>

definition embed_state :: "jsval \<Rightarrow> string" where
  "embed_state s = json_str s"

definition initial_model :: "'s \<Rightarrow> ('s, 'p, 'c) loop_state" where
  "initial_model s = \<lparr>model_state = s, model_pending = [], model_trace = []\<rparr>"

definition restore_state :: "jsval option \<Rightarrow> string \<Rightarrow> err + jsval" where
  "restore_state state payload = (case state of Some s \<Rightarrow> Inr s | None \<Rightarrow> JSON_parse payload)"

definition ClientApp ::
  "jsval option \<Rightarrow> (jsval, 'p) client_app \<Rightarrow> nat \<Rightarrow> string \<Rightarrow> replay_entry list \<Rightarrow>
   err + (jsval, 'p) client_model" where
  "ClientApp state A fuel payload queue =
     (case restore_state state payload of
        Inl e \<Rightarrow> Inl e
      | Inr s \<Rightarrow>
          (case drain A fuel queue (initial_model s) of
             Done m \<Rightarrow> Inr m
           | Failed e m \<Rightarrow> Inl e
           | OutOfFuel m \<Rightarrow> Inl (OutsideModel ''fuel'')))"

section \<open>An application for the witnesses\<close>

text \<open>
  The shape of spec 8's Scenario C: the state is the list of accepted proposals, action
  \<open>a\<close> returns its proposal and action \<open>b\<close> calls \<open>propose\<close> (the two styles of spec
  4.1), and there is no Next-Action.
\<close>

definition scenario_C_app :: "(jsval, jsval) client_app" where
  "scenario_C_app =
     \<lparr>Accept = (\<lambda>s p. case s of JArr xs \<Rightarrow> (JArr (xs @ [p]), None)
                              | _ \<Rightarrow> (s, Some (TypeError ''state is not an array''))),
      Actions = [''a'' \<mapsto> (\<lambda>args. ([], Inr (Some (JStr ''a'')))),
                 ''b'' \<mapsto> (\<lambda>args. ([JStr ''b''], Inr None))],
      nextAction = None\<rparr>"

section \<open>Lemmas\<close>

lemma ClientApp_Inr:
  "ClientApp state A fuel payload q = Inr m \<longleftrightarrow>
     (\<exists>s. restore_state state payload = Inr s \<and> drain A fuel q (initial_model s) = Done m)"
  by (auto simp: ClientApp_def split: sum.splits outcome.splits)

lemma initial_model_inv [simp]: "model_inv A s (initial_model s)"
  by (simp add: model_inv_def initial_model_def accept_fold_def)

lemma restore_embedded:
  "json_clean s \<Longrightarrow> restore_state None (embed_state s) = Inr s"
  by (simp add: restore_state_def embed_state_def JSON_parse_stringify)


lemma scenario_C_drain:
  "drain scenario_C_app 10 [\<lparr>re_name = ''a'', re_handler = CallsAction 1, re_args = [], re_target = 1, re_event = 0\<rparr>, \<lparr>re_name = ''b'', re_handler = CallsAction 1, re_args = [JNum 7], re_target = 2, re_event = 0\<rparr>] (initial_model (JArr [])) = Done \<lparr>model_state = JArr [JStr ''a'', JStr ''b''], model_pending = [], model_trace = [EvCall ''a'' [], EvAccept (JStr ''a''), EvCall ''b'' [JNum 7], EvAccept (JStr ''b'')]\<rparr>"
  unfolding scenario_C_app_def initial_model_def by code_simp

lemma scenario_C_client:
  "ClientApp None scenario_C_app 10 (embed_state (JArr [])) [\<lparr>re_name = ''a'', re_handler = CallsAction 1, re_args = [], re_target = 1, re_event = 0\<rparr>, \<lparr>re_name = ''b'', re_handler = CallsAction 1, re_args = [JNum 7], re_target = 2, re_event = 0\<rparr>] = Inr \<lparr>model_state = JArr [JStr ''a'', JStr ''b''], model_pending = [], model_trace = [EvCall ''a'' [], EvAccept (JStr ''a''), EvCall ''b'' [JNum 7], EvAccept (JStr ''b'')]\<rparr>"
  using restore_embedded [of "JArr []"] scenario_C_drain by (simp add: ClientApp_def)

text \<open>
  C13. The server-to-client round trip (spec 8): a state the server embeds, with no
  \<open>undefined\<close> and no duplicate key, is restored by the client runtime (no \<open>state\<close>
  override, nothing queued) deep-equal, and nothing has run on it.
\<close>

theorem client_state_roundtrip:
  assumes "json_clean s"
  shows "ClientApp None A fuel (embed_state s) [] = Inr (initial_model s)"
  using restore_embedded [OF assms] by (simp add: ClientApp_def)

theorem client_state_roundtrip_witness:
  "json_clean (JObj [(''route'', JStr ''/posts''), (''posts'', JArr [JNum 1, JNum 2])]) \<and>
   ClientApp None scenario_C_app 0 (embed_state (JObj [(''route'', JStr ''/posts''), (''posts'', JArr [JNum 1, JNum 2])])) [] =
     Inr (initial_model (JObj [(''route'', JStr ''/posts''), (''posts'', JArr [JNum 1, JNum 2])]))"
  using client_state_roundtrip [of "JObj [(''route'', JStr ''/posts''), (''posts'', JArr [JNum 1, JNum 2])]" scenario_C_app 0]
  by simp

text \<open>
  C18. On the client, a proposal never bypasses Accept: after start-up, the replayed
  clicks included, the state is the restored state with exactly the accepted proposals
  applied by Accept, in order.
\<close>

theorem client_state_is_accept_fold:
  assumes "ClientApp state A fuel payload q = Inr m" and "restore_state state payload = Inr s"
  shows "model_state m = accept_fold A s (accepted (model_trace m))"
proof -
  from assms have "drain A fuel q (initial_model s) = Done m" by (auto simp: ClientApp_Inr)
  with drain_inv [OF initial_model_inv, of A s fuel q] show ?thesis by (simp add: model_inv_def)
qed

theorem client_state_is_accept_fold_witness:
  "ClientApp None scenario_C_app 10 (embed_state (JArr [])) [\<lparr>re_name = ''a'', re_handler = CallsAction 1, re_args = [], re_target = 1, re_event = 0\<rparr>, \<lparr>re_name = ''b'', re_handler = CallsAction 1, re_args = [JNum 7], re_target = 2, re_event = 0\<rparr>] = Inr \<lparr>model_state = JArr [JStr ''a'', JStr ''b''], model_pending = [], model_trace = [EvCall ''a'' [], EvAccept (JStr ''a''), EvCall ''b'' [JNum 7], EvAccept (JStr ''b'')]\<rparr> \<and>
   restore_state None (embed_state (JArr [])) = Inr (JArr []) \<and>
   model_state \<lparr>model_state = JArr [JStr ''a'', JStr ''b''], model_pending = [], model_trace = [EvCall ''a'' [], EvAccept (JStr ''a''), EvCall ''b'' [JNum 7], EvAccept (JStr ''b'')]\<rparr> = accept_fold scenario_C_app (JArr []) (accepted (model_trace \<lparr>model_state = JArr [JStr ''a'', JStr ''b''], model_pending = [], model_trace = [EvCall ''a'' [], EvAccept (JStr ''a''), EvCall ''b'' [JNum 7], EvAccept (JStr ''b'')]\<rparr>))"
proof -
  have r: "restore_state None (embed_state (JArr [])) = Inr (JArr [])" by (rule restore_embedded) simp
  from client_state_is_accept_fold [OF scenario_C_client r] scenario_C_client r show ?thesis by simp
qed

text \<open>
  C19. The client runtime's drain is a run of the bridge: when \<open>ClientApp\<close> returns, the
  bridge started on its queue replays every entry in order and ends hydrated with the
  queue empty and the same state.
\<close>

theorem client_drain_refines:
  assumes "ClientApp state A fuel payload q = Inr m" and "restore_state state payload = Inr s"
  shows "(bridge_step A fuel)\<^sup>*\<^sup>*
           \<lparr>toReplay = q, br_phase = Draining, br_replayed = [], br_pushed = q, br_model = initial_model s\<rparr>
           \<lparr>toReplay = [], br_phase = Hydrated, br_replayed = q, br_pushed = q, br_model = m\<rparr>"
proof -
  from assms have "drain A fuel q (initial_model s) = Done m" by (auto simp: ClientApp_Inr)
  then show ?thesis
    using drain_refines [of A fuel q "\<lparr>toReplay = q, br_phase = Draining, br_replayed = [], br_pushed = q,
      br_model = initial_model s\<rparr>" m] by simp
qed

theorem client_drain_refines_witness:
  "ClientApp None scenario_C_app 10 (embed_state (JArr [])) [\<lparr>re_name = ''a'', re_handler = CallsAction 1, re_args = [], re_target = 1, re_event = 0\<rparr>, \<lparr>re_name = ''b'', re_handler = CallsAction 1, re_args = [JNum 7], re_target = 2, re_event = 0\<rparr>] = Inr \<lparr>model_state = JArr [JStr ''a'', JStr ''b''], model_pending = [], model_trace = [EvCall ''a'' [], EvAccept (JStr ''a''), EvCall ''b'' [JNum 7], EvAccept (JStr ''b'')]\<rparr> \<and>
   restore_state None (embed_state (JArr [])) = Inr (JArr []) \<and>
   (bridge_step scenario_C_app 10)\<^sup>*\<^sup>*
     \<lparr>toReplay = [\<lparr>re_name = ''a'', re_handler = CallsAction 1, re_args = [], re_target = 1, re_event = 0\<rparr>, \<lparr>re_name = ''b'', re_handler = CallsAction 1, re_args = [JNum 7], re_target = 2, re_event = 0\<rparr>], br_phase = Draining, br_replayed = [], br_pushed = [\<lparr>re_name = ''a'', re_handler = CallsAction 1, re_args = [], re_target = 1, re_event = 0\<rparr>, \<lparr>re_name = ''b'', re_handler = CallsAction 1, re_args = [JNum 7], re_target = 2, re_event = 0\<rparr>],
      br_model = initial_model (JArr [])\<rparr>
     \<lparr>toReplay = [], br_phase = Hydrated, br_replayed = [\<lparr>re_name = ''a'', re_handler = CallsAction 1, re_args = [], re_target = 1, re_event = 0\<rparr>, \<lparr>re_name = ''b'', re_handler = CallsAction 1, re_args = [JNum 7], re_target = 2, re_event = 0\<rparr>], br_pushed = [\<lparr>re_name = ''a'', re_handler = CallsAction 1, re_args = [], re_target = 1, re_event = 0\<rparr>, \<lparr>re_name = ''b'', re_handler = CallsAction 1, re_args = [JNum 7], re_target = 2, re_event = 0\<rparr>], br_model = \<lparr>model_state = JArr [JStr ''a'', JStr ''b''], model_pending = [], model_trace = [EvCall ''a'' [], EvAccept (JStr ''a''), EvCall ''b'' [JNum 7], EvAccept (JStr ''b'')]\<rparr>\<rparr>"
proof -
  have r: "restore_state None (embed_state (JArr [])) = Inr (JArr [])" by (rule restore_embedded) simp
  from client_drain_refines [OF scenario_C_client r] scenario_C_client r show ?thesis by simp
qed

end
