(* ===== verification/Spec2Isabelle.thy ===== *)
theory Spec2Isabelle
  imports Prelude JsValue Json JsonParse Core_Loop Core_Async Example_App Dispatch Server Replay Client
begin

text \<open>
  \<^bold>\<open>Verification library of hyper-sam\<close> (HyperHTML and the SAM pattern).

  \<^bold>\<open>The program.\<close> hyper-sam runs the State-Action-Model loop for web applications
  rendered on the server and hydrated in the browser. An action proposes a change, the
  application's Accept function applies it to the single state object, and the
  optional Next-Action hook may call further actions. The sources are two files:
  \<^item> \<open>src/src/control/server.mjs\<close>: \<open>ssrDefaultProps\<close> (the props of the root
    component on the server) and \<open>ssrDispatch\<close> (the text of an inline event handler
    that pushes a replay entry to \<open>window.dispatcher.toReplay\<close> before the client exists);
  \<^item> \<open>src/README.md\<close>: the documented interface and an example application (actions,
    Accept, Next-Action), the client and server usage, components and a dispatch example.
  The core loop, the server and client runtimes and the drain of the replay queue are
  not in the sources; they are modelled from the spec (sections 4.1 to 4.4). The parts
  interact thus: the server runtime renders with \<open>ssrDefaultProps\<close> and \<open>ssrDispatch\<close>
  and embeds its state as JSON; clicks on the server's markup push replay entries; the
  client runtime restores the state with \<open>JSON.parse\<close>, builds the core loop and drains
  the queue through it.

  \<^bold>\<open>Theories.\<close>
  \<^item> \<open>Prelude\<close>: the error values (\<open>err\<close>: TypeError, UnknownAction, Thrown,
    SyntaxError, OutsideModel), action names, the characters of generated text, list and
    association-list lemmas, the rule collections \<open>js_simps\<close> and \<open>loop_simps\<close>.
  \<^item> \<open>JsValue\<close>: JavaScript values (\<open>jsval\<close>), \<open>typeof\<close>, truthiness, property read
    \<open>js_get\<close> and write \<open>js_set\<close> with the strict-mode TypeErrors; objects are
    association lists in property order.
  \<^item> \<open>Json\<close>: \<open>JSON.stringify\<close> (\<open>json_str\<close>, \<open>json_quote\<close>, \<open>json_escape\<close>), and the
    fact that its text has no control character.
  \<^item> \<open>JsonParse\<close>: \<open>JSON.parse\<close> (\<open>JSON_parse\<close>, a recursive-descent parser with the
    engine's SyntaxErrors) and the round trip \<open>JSON_parse (json_str v) = Inr v\<close> for
    values with no \<open>undefined\<close> and no duplicate key (\<open>json_clean\<close>).
  \<^item> \<open>Core_Loop\<close> (spec 4.1): the application record \<open>app\<close> (Accept, Actions,
    nextAction), the machine state \<open>loop_state\<close> (the state, the stack of pending tasks,
    the trace of events), one step \<open>loop_step\<close>, the run \<open>run\<close> with fuel, the entry
    points \<open>loop_accept\<close> (the bound \<open>accept\<close>) and \<open>loop_action\<close> (a wrapped action).
    The schedule is depth-first and awaited: an Accept is followed by Next-Action, whose
    action calls run in order, each action's proposals are accepted in order and then
    its returned proposal; an exception ends the run with the state as it is (no
    rollback). Lemmas: the state is the fold of Accept over the accepted proposals
    (\<open>run_state_is_accept_fold\<close>); every completed run pairs each Accept with one
    Next-Action (\<open>next_action_once_per_accept\<close>); fuel monotonicity
    (\<open>run_fuel_mono\<close>); the error and no-Next-Action cases.
  \<^item> \<open>Core_Async\<close> (spec 4.1 re-entrancy, spec 5): overlapping invocations of the
    core loop as an inductive relation \<open>async_step\<close> on a pool of threads (one task stack
    per invocation) sharing the state: any thread may take its next loop step, a call may
    be detached into its own thread (a call without \<open>await\<close>), new \<open>accept\<close> and action
    invocations may start at any time, and an exception rejects its own invocation
    only. Lemmas, by rule induction over every interleaving: the state is Accept folded
    over the accepted proposals in the order their Accepts ran; Next-Action runs at most
    once per Accept, exactly once when all invocations have finished unrejected
    (invariant \<open>async_inv\<close>); a sequential run of the core loop is one schedule
    (\<open>async_refines_run\<close>).
  \<^item> \<open>Example_App\<close>: the README example (\<open>exampleAction\<close>, \<open>Accept_example\<close>,
    \<open>nextAction_example\<close>, \<open>example_app\<close>) run through the core loop: Scenario A,
    the Accept fold and the Accept/Next-Action pairing on this application, the
    non-termination of its Next-Action chain when \<open>state.foo\<close> is truthy, and what its
    Accept does with no-op and non-string proposals.
  \<^item> \<open>Dispatch\<close>: \<open>ssrDispatch\<close> as text, character for character, and
    \<open>dispatch_parts\<close>, a reader of that text that reads the name as a JavaScript
    single-quoted literal (\<open>js_sq_literal\<close>), the handler as the text between its
    fixed neighbours, and the arguments as the JSON text after the last
    \<open>const args = \<close>. Lemmas: the round trip for names without quote, backslash or
    line terminator (any handler text), the quote injection, undefined arguments
    written as null.
  \<^item> \<open>Server\<close>: \<open>ssrDefaultProps\<close>, the server runtime \<open>SsrApp\<close> of spec 4.2 (render
    with the server props and \<open>ssrDispatch\<close>; accept with no actions and no
    Next-Action) and the README's server usage \<open>readme_ssr_usage\<close>; the spec's reading
    of \<open>accept(proposal)\<close> as a call of Accept with \<open>{state, proposal}\<close>
    (\<open>accept_with_state\<close>), and the lemma that the README's server usage and its
    \<open>exampleAction\<close> assume different readings, so one of them fails under either.
  \<^item> \<open>Replay\<close> (spec 4.4): the replay entry the inline handler pushes
    (\<open>inline_click\<close>, the code of server.mjs lines 12--21 run by the browser,
    \<open>push_entry\<close>), the replay of one entry through the core loop (\<open>replay_one\<close>,
    failing with \<open>UnknownAction\<close> for a name the client lacks), the drain of a queue
    (\<open>drain\<close>), and the bridge as an inductive relation \<open>bridge_step\<close> in which clicks
    and drain steps interleave. Lemmas: the FIFO invariant (\<open>bridge_inv\<close>) by rule
    induction, the refinement of the relation by \<open>drain\<close> (\<open>drain_refines\<close>), the
    unknown-action error, the empty-queue no-op, the Accept fold kept by the replay.
    The replay calls \<open>handler(event, action)\<close> as spec 4.4 says; the README's dispatch
    example passes a factory meant to be called with the arguments first, so it is
    not modelled.
  \<^item> \<open>Client\<close> (spec 4.3): the embedded state (\<open>embed_state\<close>), the restoration
    (\<open>restore_state\<close>) and \<open>ClientApp\<close> (restore, build the loop, drain). Lemmas: the
    server-to-client round trip for states with no \<open>undefined\<close> and no duplicate key,
    the Accept fold after start-up, the drain as a run of the bridge. The application
    \<open>scenario_C_app\<close> (the shape of spec 8's Scenario C) serves the witnesses.
  \<^item> This theory: the click-to-action-call property across Dispatch, JsonParse,
    Replay and Core_Loop, and the README application under overlapping calls: its
    invariants, and an interleaving in which the second \<open>exampleAction\<close> call overtakes
    the first, so the first call's value is the one left in \<open>state.bar\<close>.

  \<^bold>\<open>Fuel.\<close> \<open>run\<close> spends one unit per step. The Next-Action chain is the
  application's to make converge (spec 3), so no fuel bound holds in general; each
  theorem about a finished run gives the fuel it needs (three steps for an accept
  without Next-Action, four for the example's action with a string, ten for the two
  replayed actions of the witnesses' application) and \<open>run_fuel_mono\<close> shows more fuel changes nothing,
  while the example's divergence is proved for every amount of fuel. \<open>JSON_parse\<close>
  takes one more unit of fuel than the length of its text; the round trip is proved with
  exactly that fuel, and a text nested too deeply for it is reported as
  \<open>OutsideModel\<close>, never as a result.

  \<^bold>\<open>Not modelled.\<close> The connect function \<open>cn\<close> and the components (rendering
  identity only), the renderer (an opaque parameter: \<open>wire\<close>) and the initial render,
  the evaluation of handler source text (abstracted by what the handler does with
  \<open>action\<close>), suspension inside a user's Accept (Accept runs atomically between two
  steps of the interleaved machine, as a synchronous Accept does), routing and
  packaging. JavaScript numbers are integers here, strings are byte strings, and
  object keys that look like array indices are not ordered first.

  \<^bold>\<open>Plan.\<close> Next: the bridge's drain run on the interleaved machine (replayed
  actions overlapping with clicks handled by the live client); the Next-Action policy
  choices of spec 9 (a bound on re-entrancy with a reported error); JSON numbers with
  fractions; the components' use of \<open>cn\<close> and \<open>ssrDefaultProps\<close>.
\<close>

section \<open>Properties across components\<close>

text \<open>
  C15. A click recorded on the server's markup becomes the action call on the client:
  for an action name that the name literal carries unchanged, arguments that
  \<open>JSON.stringify\<close> keeps, a handler that calls \<open>action()\<close> once and an action the client
  has, the entry the click records is replayed as exactly one run of the core loop on
  that action with the recorded arguments.
\<close>

theorem click_replays_action:
  assumes "literal_safe n" and "list_all json_clean args" and "Actions A n = Some f"
    and "ev h = CallsAction 1"
  shows "\<exists>ent. inline_click ev (ssrDispatch n h args) t e = Inr ent \<and>
           drain A fuel [ent] m = run A fuel (m\<lparr>model_pending := [TCall n args]\<rparr>)"
  using assms by (simp add: inline_click_ssrDispatch replay_one_def split: outcome.splits)

theorem click_replays_action_witness:
  "\<exists>ent. inline_click (\<lambda>h. CallsAction 1) (ssrDispatch ''b'' ''(event, action) => action()'' [JNum 7]) 2 0 = Inr ent \<and>
     drain scenario_C_app 3 [ent] \<lparr>model_state = JArr [], model_pending = [], model_trace = []\<rparr> = run scenario_C_app 3 (\<lparr>model_state = JArr [], model_pending = [], model_trace = []\<rparr>\<lparr>model_pending := [TCall ''b'' [JNum 7]]\<rparr>)"
proof -
  have "literal_safe ''b''" by (simp add: literal_safe_def)
  moreover have "list_all json_clean [JNum 7]" by simp
  moreover have "Actions scenario_C_app ''b'' = Some (\<lambda>args. ([JStr ''b''], Inr None))"
    by (simp add: scenario_C_app_def)
  moreover have "(\<lambda>h. CallsAction 1) ''(event, action) => action()'' = CallsAction 1" by simp
  ultimately show ?thesis by (rule click_replays_action)
qed

text \<open>
  C20. The README application under overlapping calls (spec 4.1, 5): whatever the
  interleaving of its invocations, detached calls included, the state is the README
  Accept folded over the accepted proposals in the order their Accepts ran, Next-Action
  has run at most once per Accept, and exactly once per Accept when every invocation has
  finished and none was rejected.
\<close>

theorem example_async_invariants:
  assumes "(async_step example_app)\<^sup>*\<^sup>* (async_init s) as"
  shows "a_state as = accept_fold example_app s (accepted (a_trace as)) \<and>
         count_list (a_trace as) EvNext \<le> length (accepted (a_trace as)) \<and>
         (quiescent as \<and> a_rejected as = [] \<longrightarrow> count_list (a_trace as) EvNext = length (accepted (a_trace as)))"
proof -
  have na: "nextAction example_app \<noteq> None" by (simp add: example_app_def)
  show ?thesis
    using async_state_is_accept_fold [OF assms] async_next_action_per_accept [OF na assms] by simp
qed

theorem example_async_invariants_witness:
  "(async_step example_app)\<^sup>*\<^sup>* (async_init (JObj [(''foo'', JBool False)])) \<lparr>a_state = JObj [(''foo'', JBool False)], a_threads = [[TCall ''exampleAction'' [JObj [(''value'', JStr ''x'')]]], [TCall ''exampleAction'' [JObj [(''value'', JStr ''y'')]]]], a_trace = [], a_rejected = []\<rparr> \<and>
   a_state (\<lparr>a_state = JObj [(''foo'', JBool False)], a_threads = [[TCall ''exampleAction'' [JObj [(''value'', JStr ''x'')]]], [TCall ''exampleAction'' [JObj [(''value'', JStr ''y'')]]]], a_trace = [], a_rejected = []\<rparr> :: (jsval, jsval, jsval list) async_state) = accept_fold example_app (JObj [(''foo'', JBool False)]) []"
proof -
  have r: "(async_step example_app)\<^sup>*\<^sup>* (async_init (JObj [(''foo'', JBool False)])) (\<lparr>a_state = JObj [(''foo'', JBool False)], a_threads = [[TCall ''exampleAction'' [JObj [(''value'', JStr ''x'')]]], [TCall ''exampleAction'' [JObj [(''value'', JStr ''y'')]]]], a_trace = [], a_rejected = []\<rparr> :: (jsval, jsval, jsval list) async_state)"
    by (rule invoke_two) simp_all
  from r example_async_invariants [OF r] show ?thesis by simp
qed


end
